theory Spec2Isabelle
  imports Main "HOL-Library.AList"
begin

section \<open>Python values\<close>

text \<open>
  The script \<^verbatim>\<open>src/app.py\<close> keeps the player character, the decoded backend reply and
  every history entry as plain Python values (dicts, lists, strings, numbers, None).
  A dict is an association list with distinct keys in insertion order; \<open>d[k] = v\<close> is
  \<open>AList.update k v d\<close>, which overwrites in place or appends at the end, as Python does.

  Texts are byte strings: a Python \<open>str\<close> stands for its UTF-8 encoding.

  Floating-point numbers are kept abstract: the type \<open>'f\<close> of floats and the four
  operations on them that the script reaches are parameters (\<open>float_ops\<close>), so every
  theorem below holds for whatever the arithmetic of the platform is.
\<close>

datatype 'f pyval =
    PNone
  | PBool bool
  | PInt int
  | PFloat 'f
  | PStr string
  | PList "'f pyval list"
  | PDict "(string \<times> 'f pyval) list"

type_synonym 'f pydict = "(string \<times> 'f pyval) list"

datatype py_error = ValueError | AttributeError | TypeError | KeyError | OverflowError

record 'f float_ops =
  float_of_str :: "string \<Rightarrow> 'f"
  float_of_int :: "int \<Rightarrow> 'f option"
  float_add :: "'f \<Rightarrow> 'f \<Rightarrow> 'f"
  float_is_zero :: "'f \<Rightarrow> bool"

text \<open>\<open>d.get(k, default)\<close> and \<open>dict(pairs)\<close>.\<close>

definition dict_get :: "'f pydict \<Rightarrow> string \<Rightarrow> 'f pyval \<Rightarrow> 'f pyval" where
  "dict_get d k dflt = (case map_of d k of None \<Rightarrow> dflt | Some v \<Rightarrow> v)"

definition dict_of_pairs :: "(string \<times> 'f pyval) list \<Rightarrow> 'f pydict" where
  "dict_of_pairs ps = foldl (\<lambda>d (k, v). AList.update k v d) [] ps"

text \<open>Truth value of an object, as \<open>or\<close> tests it.\<close>

fun truthy :: "'f float_ops \<Rightarrow> 'f pyval \<Rightarrow> bool" where
  "truthy fl PNone = False"
| "truthy fl (PBool b) = b"
| "truthy fl (PInt i) = (i \<noteq> 0)"
| "truthy fl (PFloat x) = (\<not> float_is_zero fl x)"
| "truthy fl (PStr s) = (s \<noteq> [])"
| "truthy fl (PList xs) = (xs \<noteq> [])"
| "truthy fl (PDict d) = (d \<noteq> [])"

text \<open>
  \<open>isinstance(v, (int, float))\<close>: \<open>bool\<close> is a subclass of \<open>int\<close> in Python, so
  \<open>True\<close> and \<open>False\<close> pass the test.
\<close>

fun is_int_or_float :: "'f pyval \<Rightarrow> bool" where
  "is_int_or_float (PBool b) = True"
| "is_int_or_float (PInt i) = True"
| "is_int_or_float (PFloat x) = True"
| "is_int_or_float v = False"

text \<open>
  \<open>a + b\<close> with a right operand that passed \<open>isinstance(b, (int, float))\<close>. Booleans
  count as 0 and 1; an int meeting a float is converted first, which overflows for huge
  ints; any other left operand (None, str, list, dict) raises TypeError.
\<close>

fun as_int :: "'f pyval \<Rightarrow> int option" where
  "as_int (PBool b) = Some (if b then 1 else 0)"
| "as_int (PInt i) = Some i"
| "as_int v = None"

definition as_float :: "'f float_ops \<Rightarrow> 'f pyval \<Rightarrow> py_error + 'f" where
  "as_float fl v =
     (case v of
        PFloat x \<Rightarrow> Inr x
      | _ \<Rightarrow> (case as_int v of
                None \<Rightarrow> Inl TypeError
              | Some i \<Rightarrow> (case float_of_int fl i of None \<Rightarrow> Inl OverflowError | Some x \<Rightarrow> Inr x)))"

definition py_add :: "'f float_ops \<Rightarrow> 'f pyval \<Rightarrow> 'f pyval \<Rightarrow> py_error + 'f pyval" where
  "py_add fl a b =
     (if is_int_or_float a \<and> is_int_or_float b then
        (case (as_int a, as_int b) of
           (Some i, Some j) \<Rightarrow> Inr (PInt (i + j))
         | _ \<Rightarrow> (case as_float fl a of
                    Inl e \<Rightarrow> Inl e
                  | Inr x \<Rightarrow> (case as_float fl b of
                               Inl e \<Rightarrow> Inl e
                             | Inr y \<Rightarrow> Inr (PFloat (float_add fl x y)))))
      else Inl TypeError)"

section \<open>String helpers\<close>

text \<open>\<open>text.index(c)\<close>: the offset of the first occurrence, ValueError when there is none.\<close>

definition str_index :: "string \<Rightarrow> char \<Rightarrow> py_error + nat" where
  "str_index s c =
     (if c \<in> set s then Inr (length (takeWhile (\<lambda>x. x \<noteq> c) s)) else Inl ValueError)"

text \<open>
  \<open>s.strip(chars)\<close> removes from both ends every character that occurs in \<open>chars\<close>
  (a set of characters, not a prefix or suffix).
\<close>

definition strip_chars :: "string \<Rightarrow> string \<Rightarrow> string" where
  "strip_chars chars s =
     rev (dropWhile (\<lambda>c. c \<in> set chars) (rev (dropWhile (\<lambda>c. c \<in> set chars) s)))"

text \<open>
  \<open>s.strip()\<close> removes white space from both ends: the code points for which
  \<open>str.isspace\<close> holds. \<open>space_prefix\<close> is the number of bytes of the white-space code
  point a text starts with (0 when it starts with none), \<open>space_suffix\<close> the same at the end.
\<close>

definition ascii_space :: "char \<Rightarrow> bool" where
  "ascii_space c =
     (let n = (of_char c :: nat) in (9 \<le> n \<and> n \<le> 13) \<or> (28 \<le> n \<and> n \<le> 32))"

definition unicode_spaces :: "string list" where
  "unicode_spaces =
     [[CHR 0xC2, CHR 0x85], [CHR 0xC2, CHR 0xA0], [CHR 0xE1, CHR 0x9A, CHR 0x80],
      [CHR 0xE2, CHR 0x80, CHR 0x80], [CHR 0xE2, CHR 0x80, CHR 0x81],
      [CHR 0xE2, CHR 0x80, CHR 0x82], [CHR 0xE2, CHR 0x80, CHR 0x83],
      [CHR 0xE2, CHR 0x80, CHR 0x84], [CHR 0xE2, CHR 0x80, CHR 0x85],
      [CHR 0xE2, CHR 0x80, CHR 0x86], [CHR 0xE2, CHR 0x80, CHR 0x87],
      [CHR 0xE2, CHR 0x80, CHR 0x88], [CHR 0xE2, CHR 0x80, CHR 0x89],
      [CHR 0xE2, CHR 0x80, CHR 0x8A], [CHR 0xE2, CHR 0x80, CHR 0xA8],
      [CHR 0xE2, CHR 0x80, CHR 0xA9], [CHR 0xE2, CHR 0x80, CHR 0xAF],
      [CHR 0xE2, CHR 0x81, CHR 0x9F], [CHR 0xE3, CHR 0x80, CHR 0x80]]"

definition space_prefix :: "string \<Rightarrow> nat" where
  "space_prefix s =
     (case s of
        [] \<Rightarrow> 0
      | c # cs \<Rightarrow>
          if ascii_space c then 1
          else if take 2 s \<in> set unicode_spaces then 2
          else if take 3 s \<in> set unicode_spaces then 3
          else 0)"

definition space_suffix :: "string \<Rightarrow> nat" where
  "space_suffix s =
     (let n = length s in
      case rev s of
        [] \<Rightarrow> 0
      | c # cs \<Rightarrow>
          if ascii_space c then 1
          else if drop (n - 2) s \<in> set unicode_spaces then 2
          else if drop (n - 3) s \<in> set unicode_spaces then 3
          else 0)"

function lstrip :: "string \<Rightarrow> string" where
  "lstrip s = (if space_prefix s = 0 then s else lstrip (drop (space_prefix s) s))"
  by pat_completeness auto
termination
proof (relation "measure length")
  show "wf (measure length)" by simp
next
  fix s :: string
  assume pos: "space_prefix s \<noteq> 0"
  then have "s \<noteq> []" by (auto simp: space_prefix_def)
  with pos show "(drop (space_prefix s) s, s) \<in> measure length" by simp
qed

function rstrip :: "string \<Rightarrow> string" where
  "rstrip s = (if space_suffix s = 0 then s else rstrip (take (length s - space_suffix s) s))"
  by pat_completeness auto
termination
proof (relation "measure length")
  show "wf (measure length)" by simp
next
  fix s :: string
  assume pos: "space_suffix s \<noteq> 0"
  then have "s \<noteq> []" by (auto simp: space_suffix_def)
  with pos show "(take (length s - space_suffix s) s, s) \<in> measure length" by simp
qed

definition strip :: "string \<Rightarrow> string" where
  "strip s = rstrip (lstrip s)"

declare lstrip.simps [simp del] rstrip.simps [simp del]

section \<open>The JSON decoder\<close>

text \<open>
  \<open>json.loads\<close> belongs to Python's standard library. It is modelled after the library's
  scanner (\<open>json.scanner\<close>, \<open>json.decoder\<close>): white space is blank, tab, line feed
  and carriage return; a value is a string, an object, an array, \<open>null\<close>, \<open>true\<close>,
  \<open>false\<close>, a number, or one of \<open>NaN\<close>, \<open>Infinity\<close>, \<open>-Infinity\<close>; a text that
  continues after the value and trailing white space is rejected. Digits are the ASCII
  digits. The library's resource limits (recursion depth, digits of an integer literal)
  are not modelled.
\<close>

definition json_ws :: "char \<Rightarrow> bool" where
  "json_ws c = (c = CHR '' '' \<or> c = CHR 0x09 \<or> c = CHR 0x0A \<or> c = CHR 0x0D)"

definition skip_ws :: "string \<Rightarrow> string" where
  "skip_ws s = dropWhile json_ws s"

definition in_range :: "char \<Rightarrow> char \<Rightarrow> char \<Rightarrow> bool" where
  "in_range lo hi c = ((of_char lo :: nat) \<le> of_char c \<and> (of_char c :: nat) \<le> of_char hi)"

definition is_digit :: "char \<Rightarrow> bool" where
  "is_digit c = in_range (CHR ''0'') (CHR ''9'') c"

definition digit_val :: "char \<Rightarrow> nat" where
  "digit_val c = of_char c - of_char CHR ''0''"

definition nat_of_digits :: "string \<Rightarrow> nat" where
  "nat_of_digits ds = foldl (\<lambda>n c. 10 * n + digit_val c) 0 ds"

text \<open>
  The number pattern \<open>(-?(?:0|[1-9][0-9]*))(\.[0-9]+)?([eE][-+]?[0-9]+)?\<close>, matched greedily
  at the start of the text: the integer part, the fraction, the exponent and the rest.
\<close>

definition match_int_part :: "string \<Rightarrow> (string \<times> string) option" where
  "match_int_part s =
     (let sgn = takeWhile (\<lambda>c. c = CHR ''-'') (take 1 s); r = drop (length sgn) s in
      case r of
        [] \<Rightarrow> None
      | d # ds \<Rightarrow>
          if d = CHR ''0'' then Some (sgn @ [d], ds)
          else if is_digit d then Some (sgn @ d # takeWhile is_digit ds, dropWhile is_digit ds)
          else None)"

definition match_frac :: "string \<Rightarrow> string \<times> string" where
  "match_frac s =
     (case s of
        c # cs \<Rightarrow>
          if c = CHR ''.'' \<and> takeWhile is_digit cs \<noteq> []
          then (c # takeWhile is_digit cs, dropWhile is_digit cs) else ([], s)
      | [] \<Rightarrow> ([], s))"

definition match_exp :: "string \<Rightarrow> string \<times> string" where
  "match_exp s =
     (case s of
        c # cs \<Rightarrow>
          if c = CHR ''e'' \<or> c = CHR ''E'' then
            (let sgn = takeWhile (\<lambda>x. x = CHR ''-'' \<or> x = CHR ''+'') (take 1 cs);
                 r = drop (length sgn) cs in
             if takeWhile is_digit r \<noteq> []
             then (c # sgn @ takeWhile is_digit r, dropWhile is_digit r) else ([], s))
          else ([], s)
      | [] \<Rightarrow> ([], s))"

definition int_of_literal :: "string \<Rightarrow> int" where
  "int_of_literal s =
     (case s of
        c # cs \<Rightarrow> if c = CHR ''-'' then - int (nat_of_digits cs) else int (nat_of_digits s)
      | [] \<Rightarrow> 0)"

definition match_number :: "'f float_ops \<Rightarrow> string \<Rightarrow> ('f pyval \<times> string) option" where
  "match_number fl s =
     (case match_int_part s of
        None \<Rightarrow> None
      | Some (integer, r1) \<Rightarrow>
          (let (frac, r2) = match_frac r1; (ex, r3) = match_exp r2 in
           if frac = [] \<and> ex = []
           then Some (PInt (int_of_literal integer), r3)
           else Some (PFloat (float_of_str fl (integer @ frac @ ex)), r3)))"

text \<open>
  String contents (\<open>scanstring\<close>, strict): up to the closing quote; a control character
  is an error; the escapes are \<open>\" \\ \/ \b \f \n \r \t\<close> and \<open>\uXXXX\<close>, a high
  surrogate followed by an escaped low surrogate giving one code point. The decoded
  code points are written in UTF-8.
\<close>

definition hex_val :: "char \<Rightarrow> nat option" where
  "hex_val c =
     (if is_digit c then Some (digit_val c)
      else if in_range (CHR ''a'') (CHR ''f'') c then Some (of_char c - of_char CHR ''a'' + 10)
      else if in_range (CHR ''A'') (CHR ''F'') c then Some (of_char c - of_char CHR ''A'' + 10)
      else None)"

definition decode_uXXXX :: "string \<Rightarrow> nat option" where
  "decode_uXXXX s =
     (case map hex_val (take 4 s) of
        [Some a, Some b, Some c, Some d] \<Rightarrow> Some (((a * 16 + b) * 16 + c) * 16 + d)
      | _ \<Rightarrow> None)"

definition utf8 :: "nat \<Rightarrow> string" where
  "utf8 cp =
     (if cp < 0x80 then [char_of cp]
      else if cp < 0x800 then [char_of (0xC0 + cp div 64), char_of (0x80 + cp mod 64)]
      else if cp < 0x10000 then
        [char_of (0xE0 + cp div 4096), char_of (0x80 + cp div 64 mod 64),
         char_of (0x80 + cp mod 64)]
      else
        [char_of (0xF0 + cp div 262144), char_of (0x80 + cp div 4096 mod 64),
         char_of (0x80 + cp div 64 mod 64), char_of (0x80 + cp mod 64)])"

definition backslash :: "char \<Rightarrow> char option" where
  "backslash c =
     (if c = CHR 0x22 \<or> c = CHR 0x5C \<or> c = CHR ''/'' then Some c
      else if c = CHR ''b'' then Some (CHR 0x08)
      else if c = CHR ''f'' then Some (CHR 0x0C)
      else if c = CHR ''n'' then Some (CHR 0x0A)
      else if c = CHR ''r'' then Some (CHR 0x0D)
      else if c = CHR ''t'' then Some (CHR 0x09)
      else None)"

definition prepend :: "string \<Rightarrow> (string \<times> string) option \<Rightarrow> (string \<times> string) option" where
  "prepend pre r = map_option (\<lambda>(s, rest). (pre @ s, rest)) r"

fun scanstring :: "string \<Rightarrow> (string \<times> string) option" where
  "scanstring [] = None"
| "scanstring (c # cs) =
     (if c = CHR 0x22 then Some ([], cs)
      else if c = CHR 0x5C then
        (case cs of
           [] \<Rightarrow> None
         | e # es \<Rightarrow>
             if e = CHR ''u'' then
               (case decode_uXXXX es of
                  None \<Rightarrow> None
                | Some uni \<Rightarrow>
                    if 0xD800 \<le> uni \<and> uni \<le> 0xDBFF \<and> take 2 (drop 4 es) = [CHR 0x5C, CHR ''u'']
                    then
                      (case decode_uXXXX (drop 6 es) of
                         None \<Rightarrow> None
                       | Some uni2 \<Rightarrow>
                           if 0xDC00 \<le> uni2 \<and> uni2 \<le> 0xDFFF
                           then prepend (utf8 (0x10000 + (uni - 0xD800) * 1024 + (uni2 - 0xDC00)))
                                  (scanstring (drop 10 es))
                           else prepend (utf8 uni) (scanstring (drop 4 es)))
                    else prepend (utf8 uni) (scanstring (drop 4 es)))
             else
               (case backslash e of
                  None \<Rightarrow> None
                | Some ch \<Rightarrow> prepend [ch] (scanstring es)))
      else if (of_char c :: nat) < 0x20 then None
      else prepend [c] (scanstring cs))"

text \<open>
  The scanner proper. Python's \<open>scan_once\<close>, \<open>JSONObject\<close> and \<open>JSONArray\<close> call each
  other; the loops of the latter two are \<open>object_pairs\<close> and \<open>array_values\<close>. What
  they do between two recursive calls is in the helpers that come first. The recursion
  is on a step budget, which \<open>json_loads\<close> sets above what any text of that length can
  use (lemma \<open>scan_once_budget\<close> below).
\<close>

datatype 'a scanned = Scanned 'a string | Decode_Error | Out_Of_Budget

text \<open>A value that is neither an object nor an array, at the start of \<open>s\<close>.\<close>

definition scan_atom :: "'f float_ops \<Rightarrow> string \<Rightarrow> 'f pyval scanned" where
  "scan_atom fl s =
     (if take 1 s = [CHR 0x22] then
        (case scanstring (drop 1 s) of
           None \<Rightarrow> Decode_Error
         | Some (str, r) \<Rightarrow> Scanned (PStr str) r)
      else if take 4 s = ''null'' then Scanned PNone (drop 4 s)
      else if take 4 s = ''true'' then Scanned (PBool True) (drop 4 s)
      else if take 5 s = ''false'' then Scanned (PBool False) (drop 5 s)
      else
        (case match_number fl s of
           Some (num, r) \<Rightarrow> Scanned num r
         | None \<Rightarrow>
             if take 3 s = ''NaN'' then Scanned (PFloat (float_of_str fl ''NaN'')) (drop 3 s)
             else if take 8 s = ''Infinity''
             then Scanned (PFloat (float_of_str fl ''Infinity'')) (drop 8 s)
             else if take 9 s = ''-Infinity''
             then Scanned (PFloat (float_of_str fl ''-Infinity'')) (drop 9 s)
             else Decode_Error))"

text \<open>
  After the opening brace or bracket: the container closes at once, or its first member
  starts (for an object, after the opening quote of the first key).
\<close>

datatype opener = Closes string | Opens string | Bad_Opening

definition object_start :: "string \<Rightarrow> opener" where
  "object_start s =
     (case skip_ws s of
        [] \<Rightarrow> Bad_Opening
      | c # r \<Rightarrow>
          if c = CHR ''}'' then Closes r
          else if c = CHR 0x22 then Opens r
          else Bad_Opening)"

definition array_start :: "string \<Rightarrow> opener" where
  "array_start s =
     (case skip_ws s of
        [] \<Rightarrow> Bad_Opening
      | c # r \<Rightarrow> if c = CHR '']'' then Closes r else Opens (c # r))"

text \<open>A key up to its closing quote, the colon, and the white space before the value.\<close>

definition object_key :: "string \<Rightarrow> (string \<times> string) option" where
  "object_key s =
     (case scanstring s of
        None \<Rightarrow> None
      | Some (key, r) \<Rightarrow>
          (case skip_ws r of
             [] \<Rightarrow> None
           | c # r1 \<Rightarrow> if c = CHR '':'' then Some (key, skip_ws r1) else None))"

text \<open>
  After a member: the container closes, or a comma leads to the next member (for an
  object, to just after the opening quote of the next key).
\<close>

datatype separator = Last string | Next string | Bad_Separator

definition object_next :: "string \<Rightarrow> separator" where
  "object_next s =
     (case skip_ws s of
        [] \<Rightarrow> Bad_Separator
      | d # r \<Rightarrow>
          if d = CHR ''}'' then Last r
          else if d \<noteq> CHR '','' then Bad_Separator
          else
            (case skip_ws r of
               [] \<Rightarrow> Bad_Separator
             | q # r1 \<Rightarrow> if q = CHR 0x22 then Next r1 else Bad_Separator))"

definition array_next :: "string \<Rightarrow> separator" where
  "array_next s =
     (case skip_ws s of
        [] \<Rightarrow> Bad_Separator
      | d # r \<Rightarrow>
          if d = CHR '']'' then Last r
          else if d \<noteq> CHR '','' then Bad_Separator
          else Next (skip_ws r))"

function (sequential) scan_once :: "'f float_ops \<Rightarrow> nat \<Rightarrow> string \<Rightarrow> 'f pyval scanned"
and JSONObject :: "'f float_ops \<Rightarrow> nat \<Rightarrow> string \<Rightarrow> 'f pyval scanned"
and object_pairs ::
  "'f float_ops \<Rightarrow> nat \<Rightarrow> (string \<times> 'f pyval) list \<Rightarrow> string \<Rightarrow> 'f pyval scanned"
and JSONArray :: "'f float_ops \<Rightarrow> nat \<Rightarrow> string \<Rightarrow> 'f pyval scanned"
and array_values :: "'f float_ops \<Rightarrow> nat \<Rightarrow> 'f pyval list \<Rightarrow> string \<Rightarrow> 'f pyval scanned"
where
  "scan_once fl 0 s = Out_Of_Budget"
| "scan_once fl (Suc n) s =
     (if take 1 s = ''{'' then JSONObject fl n (drop 1 s)
      else if take 1 s = ''['' then JSONArray fl n (drop 1 s)
      else scan_atom fl s)"
| "JSONObject fl 0 s = Out_Of_Budget"
| "JSONObject fl (Suc n) s =
     (case object_start s of
        Closes r \<Rightarrow> Scanned (PDict []) r
      | Opens r \<Rightarrow> object_pairs fl n [] r
      | Bad_Opening \<Rightarrow> Decode_Error)"
| "object_pairs fl 0 pairs s = Out_Of_Budget"
| "object_pairs fl (Suc n) pairs s =
     (case object_key s of
        None \<Rightarrow> Decode_Error
      | Some (key, r) \<Rightarrow>
          (case scan_once fl n r of
             Scanned v r1 \<Rightarrow>
               (case object_next r1 of
                  Last r2 \<Rightarrow> Scanned (PDict (dict_of_pairs (pairs @ [(key, v)]))) r2
                | Next r2 \<Rightarrow> object_pairs fl n (pairs @ [(key, v)]) r2
                | Bad_Separator \<Rightarrow> Decode_Error)
           | Decode_Error \<Rightarrow> Decode_Error
           | Out_Of_Budget \<Rightarrow> Out_Of_Budget))"
| "JSONArray fl 0 s = Out_Of_Budget"
| "JSONArray fl (Suc n) s =
     (case array_start s of
        Closes r \<Rightarrow> Scanned (PList []) r
      | Opens r \<Rightarrow> array_values fl n [] r
      | Bad_Opening \<Rightarrow> Decode_Error)"
| "array_values fl 0 vals s = Out_Of_Budget"
| "array_values fl (Suc n) vals s =
     (case scan_once fl n s of
        Scanned v r \<Rightarrow>
          (case array_next r of
             Last r1 \<Rightarrow> Scanned (PList (vals @ [v])) r1
           | Next r1 \<Rightarrow> array_values fl n (vals @ [v]) r1
           | Bad_Separator \<Rightarrow> Decode_Error)
      | Decode_Error \<Rightarrow> Decode_Error
      | Out_Of_Budget \<Rightarrow> Out_Of_Budget)"
  by pat_completeness auto
termination
  by (relation "measure (\<lambda>x. case x of
        Inl (Inl (fl, n, s)) \<Rightarrow> n
      | Inl (Inr (fl, n, s)) \<Rightarrow> n
      | Inr (Inl (fl, n, ps, s)) \<Rightarrow> n
      | Inr (Inr (Inl (fl, n, s))) \<Rightarrow> n
      | Inr (Inr (Inr (fl, n, vs, s))) \<Rightarrow> n)") auto

text \<open>\<open>json.loads(s)\<close>; \<open>None\<close> stands for the exception the library raises.\<close>

definition json_loads :: "'f float_ops \<Rightarrow> string \<Rightarrow> 'f pyval option" where
  "json_loads fl s =
     (case scan_once fl (3 * length s + 1) (skip_ws s) of
        Scanned obj r \<Rightarrow> if skip_ws r = [] then Some obj else None
      | _ \<Rightarrow> None)"

section \<open>\<open>parse_llm_json\<close>\<close>

text \<open>
  The function returns a Python value; \<open>None\<close> (\<open>PNone\<close>) is what it returns when
  both decoding attempts raise, and also what a reply that decodes to \<open>null\<close> yields.
  The first \<open>try\<close> block covers \<open>text.index\<close> as well, so a text without an opening
  brace goes to the fallback like a text that fails to decode.
\<close>

definition first_attempt :: "'f float_ops \<Rightarrow> string \<Rightarrow> 'f pyval option" where
  "first_attempt fl text =
     (case str_index text (CHR ''{'') of
        Inl e \<Rightarrow> None
      | Inr start \<Rightarrow> json_loads fl (drop start text))"

definition cleaned :: "string \<Rightarrow> string" where
  "cleaned text = strip (strip_chars ''```'' (strip text))"

definition parse_llm_json :: "'f float_ops \<Rightarrow> string \<Rightarrow> 'f pyval" where
  "parse_llm_json fl text =
     (case first_attempt fl text of
        Some parsed \<Rightarrow> parsed
      | None \<Rightarrow>
          (case json_loads fl (cleaned text) of
             Some parsed \<Rightarrow> parsed
           | None \<Rightarrow> PNone))"

section \<open>The session and the prompt\<close>

text \<open>
  \<open>st.session_state\<close>: the player character (\<open>None\<close> until the creation form is
  submitted), the story history and the current scene. The remaining keys (API key,
  model, temperature, token limit) only reach the backend call, which is a parameter here.
\<close>

record 'f session_state =
  pc :: "'f pydict option"
  story_history :: "'f pydict list"
  current_scene :: "'f pydict option"

definition init_session_state :: "'f session_state" where
  "init_session_state = \<lparr>pc = None, story_history = [], current_scene = None\<rparr>"

text \<open>\<open>xs[i:]\<close>, for an index of either sign.\<close>

definition slice_from :: "int \<Rightarrow> 'a list \<Rightarrow> 'a list" where
  "slice_from i xs =
     (let n = int (length xs);
          start = (if i < 0 then max (n + i) 0 else min i n)
      in drop (nat start) xs)"

text \<open>
  \<open>build_messages\<close>: what goes into the user message before it is laid out as text,
  namely the character, one numbered line per entry of \<open>history[-6:]\<close> (its narrative and
  the choice taken) and the player's input. \<open>is_custom\<close> is not used by the function.
\<close>

record 'f messages =
  player_state_block :: "'f pydict option"
  summary_lines :: "(nat \<times> 'f pyval \<times> 'f pyval) list"
  player_input :: string

definition hist_excerpt :: "'a list \<Rightarrow> 'a list" where
  "hist_excerpt history = slice_from (- 6) history"

definition build_messages ::
  "'f pydict option \<Rightarrow> 'f pydict list \<Rightarrow> string \<Rightarrow> bool \<Rightarrow> 'f messages" where
  "build_messages pc0 history input is_custom =
     \<lparr>player_state_block = pc0,
      summary_lines =
        map (\<lambda>(i, h). (i, dict_get h ''narrative'' (PStr []), dict_get h ''choice_taken'' (PStr [])))
          (enumerate 1 (hist_excerpt history)),
      player_input = input\<rparr>"

section \<open>Story functions\<close>

text \<open>
  How a call ends: it reaches \<open>st.experimental_rerun()\<close>, it returns early after
  reporting an error, or an exception leaves it.
\<close>

datatype outcome = Rerun | Returned | Raised py_error

text \<open>
  One round of the update loop of \<open>take_choice\<close>: a numeric value is added to the
  present value (0 when the key is absent), any other value replaces it. Without a
  character, \<open>.get\<close> raises AttributeError and the assignment TypeError.
\<close>

definition update_one ::
  "'f float_ops \<Rightarrow> 'f pydict option \<Rightarrow> string \<Rightarrow> 'f pyval \<Rightarrow> py_error + 'f pydict" where
  "update_one fl pc0 k v =
     (if is_int_or_float v then
        (case pc0 of
           None \<Rightarrow> Inl AttributeError
         | Some d \<Rightarrow>
             (case py_add fl (dict_get d k (PInt 0)) v of
                Inl e \<Rightarrow> Inl e
              | Inr w \<Rightarrow> Inr (AList.update k w d)))
      else
        (case pc0 of
           None \<Rightarrow> Inl TypeError
         | Some d \<Rightarrow> Inr (AList.update k v d)))"

text \<open>
  The loop \<open>for k, v in updates.items()\<close>. It writes into the character as it goes, so
  an exception leaves the updates made before it in place: the result is the character
  as the loop left it, and the exception if there was one.
\<close>

fun apply_updates ::
  "'f float_ops \<Rightarrow> 'f pydict option \<Rightarrow> (string \<times> 'f pyval) list
     \<Rightarrow> 'f pydict option \<times> py_error option" where
  "apply_updates fl pc0 [] = (pc0, None)"
| "apply_updates fl pc0 ((k, v) # kvs) =
     (case update_one fl pc0 k v of
        Inl e \<Rightarrow> (pc0, Some e)
      | Inr d \<Rightarrow> apply_updates fl (Some d) kvs)"

definition history_entry :: "'f pydict \<Rightarrow> string \<Rightarrow> string \<Rightarrow> 'f pydict" where
  "history_entry parsed choice_text raw =
     [(''scene_id'', dict_get parsed ''scene_id'' PNone),
      (''narrative'', dict_get parsed ''narrative'' PNone),
      (''choices'', dict_get parsed ''choices'' PNone),
      (''choice_taken'', PStr choice_text),
      (''raw_llm'', PStr raw)]"

text \<open>\<open>parsed.get("state_updates") or {}\<close>.\<close>

definition get_state_updates :: "'f float_ops \<Rightarrow> 'f pydict \<Rightarrow> 'f pyval" where
  "get_state_updates fl parsed =
     (let u = dict_get parsed ''state_updates'' PNone in if truthy fl u then u else PDict [])"

text \<open>
  \<open>take_choice\<close>. \<open>call_llm\<close> stands for the backend call: it answers with a text or
  with \<open>None\<close>. \<open>parsed.get\<close> raises AttributeError when the reply decoded to something
  that is not a dict, and so does \<open>updates.items()\<close> when \<open>state_updates\<close> is a true
  value that is not a dict.
\<close>

definition take_choice ::
  "'f float_ops \<Rightarrow> ('f messages \<Rightarrow> string option) \<Rightarrow> 'f session_state \<Rightarrow> string \<Rightarrow> bool
     \<Rightarrow> outcome \<times> 'f session_state" where
  "take_choice fl call_llm st choice_text is_custom =
     (let messages = build_messages (pc st) (story_history st) choice_text is_custom in
      case call_llm messages of
        None \<Rightarrow> (Returned, st)
      | Some raw \<Rightarrow>
          (let parsed = parse_llm_json fl raw in
           if parsed = PNone then (Returned, st)
           else
             (case parsed of
                PDict d \<Rightarrow>
                  (case get_state_updates fl d of
                     PDict kvs \<Rightarrow>
                       (case apply_updates fl (pc st) kvs of
                          (pc1, Some e) \<Rightarrow> (Raised e, st\<lparr>pc := pc1\<rparr>)
                        | (pc1, None) \<Rightarrow>
                            (let entry = history_entry d choice_text raw in
                             (Rerun,
                              st\<lparr>pc := pc1,
                                 story_history := story_history st @ [entry],
                                 current_scene := Some entry\<rparr>)))
                   | _ \<Rightarrow> (Raised AttributeError, st))
              | _ \<Rightarrow> (Raised AttributeError, st))))"

text \<open>
  \<open>start_new_adventure\<close>. The history is emptied first; the prologue scene is then built
  from \<open>pc['name']\<close>, which the f-string formats (\<open>fmt\<close>; the identity on a \<open>str\<close>).
\<close>

definition prologue :: "string \<Rightarrow> 'f pydict" where
  "prologue name =
     [(''scene_id'', PStr ''prologue_01''),
      (''narrative'',
       PStr (name @ '' arrives at the border of a glittering fae court as twilight bleeds across the sky.''))]"

definition start_new_adventure ::
  "('f pyval \<Rightarrow> string) \<Rightarrow> 'f session_state \<Rightarrow> outcome \<times> 'f session_state" where
  "start_new_adventure fmt st =
     (let st1 = st\<lparr>story_history := []\<rparr> in
      case pc st1 of
        None \<Rightarrow> (Raised TypeError, st1)
      | Some d \<Rightarrow>
          (case map_of d ''name'' of
             None \<Rightarrow> (Raised KeyError, st1)
           | Some name \<Rightarrow> (Rerun, st1\<lparr>current_scene := Some (prologue (fmt name))\<rparr>)))"

text \<open>The three places of the page that write the session besides \<open>take_choice\<close>.\<close>

definition create_character ::
  "('f pyval \<Rightarrow> string) \<Rightarrow> 'f session_state \<Rightarrow> string \<Rightarrow> string \<Rightarrow> string \<Rightarrow> int \<Rightarrow> int \<Rightarrow> int
     \<Rightarrow> outcome \<times> 'f session_state" where
  "create_character fmt st name court archetype strength guile magic =
     start_new_adventure fmt
       (st\<lparr>pc := Some
          [(''name'', PStr name), (''court'', PStr court), (''archetype'', PStr archetype),
           (''strength'', PInt strength), (''guile'', PInt guile), (''magic'', PInt magic),
           (''hp'', PInt 10), (''relationship'', PDict []), (''inventory'', PList [])]\<rparr>)"

definition restart_session :: "'f session_state \<Rightarrow> 'f session_state" where
  "restart_session st = st\<lparr>story_history := [], current_scene := None\<rparr>"

definition start_prompt :: string where
  "start_prompt = ''Begin the adventure with a twilight border scene: the protagonist approaches a glittering fae court border. Provide narrative and 3 choices.''"

definition begin_adventure ::
  "'f float_ops \<Rightarrow> ('f messages \<Rightarrow> string option) \<Rightarrow> 'f session_state
     \<Rightarrow> outcome \<times> 'f session_state" where
  "begin_adventure fl call_llm st =
     (let messages = build_messages (pc st) (story_history st) start_prompt True in
      case call_llm messages of
        None \<Rightarrow> (Returned, st)
      | Some raw \<Rightarrow>
          (let parsed = parse_llm_json fl raw in
           if parsed = PNone then (Returned, st)
           else
             (case parsed of
                PDict d \<Rightarrow>
                  (let entry = history_entry d [] raw in
                   (Rerun,
                    st\<lparr>story_history := story_history st @ [entry],
                       current_scene := Some entry\<rparr>))
              | _ \<Rightarrow> (Raised AttributeError, st))))"

text \<open>
  The states a session can be in: the page starts from \<open>init_session_state\<close>; the
  creation form shows while there is no character; with a character, the restart button is
  always there, "Begin Adventure" shows while there is no current scene, and the choice
  buttons and the free-text form show once there is one. The backend may answer anything.
\<close>

inductive reachable :: "'f float_ops \<Rightarrow> ('f pyval \<Rightarrow> string) \<Rightarrow> 'f session_state \<Rightarrow> bool"
  for fl :: "'f float_ops" and fmt :: "'f pyval \<Rightarrow> string" where
  page_load: "reachable fl fmt init_session_state"
| form_submit:
    "reachable fl fmt st \<Longrightarrow> pc st = None \<Longrightarrow>
     create_character fmt st name court archetype strength guile magic = (out, st') \<Longrightarrow>
     reachable fl fmt st'"
| restart_button: "reachable fl fmt st \<Longrightarrow> reachable fl fmt (restart_session st)"
| begin_button:
    "reachable fl fmt st \<Longrightarrow> pc st \<noteq> None \<Longrightarrow> current_scene st = None \<Longrightarrow>
     begin_adventure fl call_llm st = (out, st') \<Longrightarrow> reachable fl fmt st'"
| choice_made:
    "reachable fl fmt st \<Longrightarrow> pc st \<noteq> None \<Longrightarrow> current_scene st \<noteq> None \<Longrightarrow>
     take_choice fl call_llm st choice_text is_custom = (out, st') \<Longrightarrow> reachable fl fmt st'"

text \<open>
  A float semantics for the closed examples below, in which no float occurs and the
  float operations are never reached.
\<close>

definition no_floats :: "unit float_ops" where
  "no_floats =
     \<lparr>float_of_str = (\<lambda>s. ()), float_of_int = (\<lambda>i. Some ()),
      float_add = (\<lambda>x y. ()), float_is_zero = (\<lambda>x. False)\<rparr>"

definition fmt_str :: "'f pyval \<Rightarrow> string" where
  "fmt_str v = (case v of PStr s \<Rightarrow> s | _ \<Rightarrow> [])"

section \<open>The update loop on a store\<close>

text \<open>
  \<open>st.session_state.pc\<close> holds a reference to a dict object, and the local name \<open>pc\<close> of
  \<open>take_choice\<close> is bound to the same object. The loop assigns to keys of that object
  (\<open>st.session_state.pc[k] = ...\<close>) and never rebinds the reference. Here the store maps
  references to dict objects and \<open>r\<close> is the reference the session holds.
\<close>

type_synonym ref = nat

type_synonym 'f store = "ref \<Rightarrow> 'f pydict option"

fun apply_updates_in_place ::
  "'f float_ops \<Rightarrow> 'f store \<Rightarrow> ref \<Rightarrow> (string \<times> 'f pyval) list \<Rightarrow> 'f store \<times> py_error option" where
  "apply_updates_in_place fl h r [] = (h, None)"
| "apply_updates_in_place fl h r ((k, v) # kvs) =
     (case update_one fl (h r) k v of
        Inl e \<Rightarrow> (h, Some e)
      | Inr d \<Rightarrow> apply_updates_in_place fl (h(r \<mapsto> d)) r kvs)"

section \<open>The ledger window of the specification\<close>

text \<open>
  The specification's \<open>window(n)\<close>: the last \<open>n\<close> entries, fewer if the history is
  shorter, most recent last. The script has no such function; it takes \<open>history[-6:]\<close>
  (\<open>hist_excerpt\<close> above).
\<close>

definition window :: "nat \<Rightarrow> 'a list \<Rightarrow> 'a list" where
  "window n ledger = drop (length ledger - min n (length ledger)) ledger"

section \<open>Example inputs\<close>

definition scenario_reply :: string where
  \<open>scenario_reply = ''{"scene_id":"s1","narrative":"You step forward.","choices":["Fight","Flee","Negotiate"],"state_updates":{"hp":-2}}''\<close>

definition scenario_parsed :: "unit pydict" where
  "scenario_parsed =
     [(''scene_id'', PStr ''s1''), (''narrative'', PStr ''You step forward.''),
      (''choices'', PList [PStr ''Fight'', PStr ''Flee'', PStr ''Negotiate'']),
      (''state_updates'', PDict [(''hp'', PInt (- 2))])]"

definition scenario_state :: "unit session_state" where
  "scenario_state =
     \<lparr>pc = Some [(''hp'', PInt 10), (''strength'', PInt 5)],
      story_history = [], current_scene = None\<rparr>"

definition scenario_entry :: "unit pydict" where
  "scenario_entry =
     [(''scene_id'', PStr ''s1''), (''narrative'', PStr ''You step forward.''),
      (''choices'', PList [PStr ''Fight'', PStr ''Flee'', PStr ''Negotiate'']),
      (''choice_taken'', PStr ''begin''), (''raw_llm'', PStr scenario_reply)]"

text \<open>The same reply inside a fence with a language tag, and inside a bare fence.\<close>

definition tagged_fence_reply :: string where
  \<open>tagged_fence_reply = ''```json\<newline>'' @ scenario_reply @ ''\<newline>```''\<close>

definition bare_fence_reply :: string where
  \<open>bare_fence_reply = '' ```\<newline>'' @ scenario_reply @ ''\<newline>``` \<newline>''\<close>

text \<open>Replies that break the scene schema of the specification.\<close>

definition no_narrative_reply :: string where
  \<open>no_narrative_reply = ''{"scene_id":"s1","choices":["x","y"]}''\<close>

definition empty_narrative_reply :: string where
  \<open>empty_narrative_reply = ''{"scene_id":"s1","narrative":"","choices":["x","y"]}''\<close>

definition duplicate_choices_reply :: string where
  \<open>duplicate_choices_reply = ''Sure! {"narrative": "A", "choices": ["x","x"]}''\<close>

definition six_choices_reply :: string where
  \<open>six_choices_reply = ''{"scene_id":"s1","narrative":"A","choices":["a","b","c","d","e","f"]}''\<close>

definition list_updates_reply :: string where
  \<open>list_updates_reply = ''{"scene_id":"s1","narrative":"A","choices":["x"],"state_updates":[1]}''\<close>

text \<open>A character with a name, and a reply that lowers \<open>hp\<close> and then adds 1 to the name.\<close>

definition named_state :: "unit session_state" where
  "named_state =
     \<lparr>pc = Some [(''name'', PStr ''Aryn''), (''hp'', PInt 10)],
      story_history = [], current_scene = Some (prologue ''Aryn'')\<rparr>"

definition name_update_reply :: string where
  \<open>name_update_reply = ''{"scene_id":"s2","narrative":"B","choices":["x"],"state_updates":{"hp":-2,"name":1}}''\<close>


text \<open>A reply with a scene id and nothing else.\<close>

definition only_scene_id_reply :: string where
  \<open>only_scene_id_reply = ''{"scene_id":"s9"}''\<close>


text \<open>
  The session after the creation form has been submitted on a fresh page, and after a
  first free-text action answered by the scenario's reply.
\<close>

definition created_state :: "unit session_state" where
  "created_state =
     snd (create_character fmt_str init_session_state
            ''Aryn'' ''Night Court (mysterious)'' ''Wary Survivor'' 5 6 3)"

definition played_state :: "unit session_state" where
  "played_state =
     snd (take_choice no_floats (\<lambda>m. Some scenario_reply) created_state ''Look around'' True)"

text \<open>A history of ten entries, numbered in the order they were appended.\<close>

definition ten_entries :: "unit pydict list" where
  "ten_entries = map (\<lambda>i. [(''scene_id'', PInt i)]) [1, 2, 3, 4, 5, 6, 7, 8, 9, 10]"

section \<open>The end-to-end scenario\<close>

lemma scenario_parse: "parse_llm_json no_floats scenario_reply = PDict scenario_parsed"
  by code_simp

lemma scenario_updates:
  "apply_updates no_floats (Some [(''hp'', PInt 10), (''strength'', PInt 5)]) [(''hp'', PInt (- 2))]
     = (Some [(''hp'', PInt 8), (''strength'', PInt 5)], None)"
  by (simp add: update_one_def py_add_def dict_get_def)

text \<open>
  C7. From the character \<open>{hp: 10, strength: 5}\<close> and an empty history, when the backend
  answers with the scenario's JSON text, \<open>take_choice("begin", is_custom=True)\<close> runs to
  its end: \<open>hp\<close> is 8, \<open>strength\<close> is untouched, and the history holds exactly one entry,
  whose \<open>scene_id\<close> is \<open>"s1"\<close> and whose \<open>choice_taken\<close> is \<open>"begin"\<close>; that entry is
  the current scene.
\<close>

theorem end_to_end_scenario:
  "take_choice no_floats (\<lambda>m. Some scenario_reply) scenario_state ''begin'' True =
     (Rerun,
      \<lparr>pc = Some [(''hp'', PInt 8), (''strength'', PInt 5)],
       story_history = [scenario_entry],
       current_scene = Some scenario_entry\<rparr>)
   \<and> dict_get scenario_entry ''scene_id'' PNone = PStr ''s1''
   \<and> dict_get scenario_entry ''choice_taken'' PNone = PStr ''begin''"
proof -
  have "take_choice no_floats (\<lambda>m. Some scenario_reply) scenario_state ''begin'' True =
     (Rerun,
      \<lparr>pc = Some [(''hp'', PInt 8), (''strength'', PInt 5)],
       story_history = [scenario_entry],
       current_scene = Some scenario_entry\<rparr>)"
    by (simp add: take_choice_def scenario_parse scenario_updates scenario_state_def
        scenario_parsed_def scenario_entry_def history_entry_def get_state_updates_def
        dict_get_def Let_def del: apply_updates.simps)
  moreover have "dict_get scenario_entry ''scene_id'' PNone = PStr ''s1''"
    by (simp add: scenario_entry_def dict_get_def)
  moreover have "dict_get scenario_entry ''choice_taken'' PNone = PStr ''begin''"
    by (simp add: scenario_entry_def dict_get_def)
  ultimately show ?thesis by simp
qed

section \<open>The history window of the prompt\<close>

lemma slice_from_neg: "0 < n \<Longrightarrow> slice_from (- int n) xs = drop (length xs - n) xs"
proof -
  assume pos: "0 < n"
  then have "nat (max (int (length xs) + - int n) 0) = length xs - n" by linarith
  with pos show ?thesis by (simp add: slice_from_def Let_def)
qed

lemma window_drop: "window n xs = drop (length xs - n) xs"
  by (simp add: window_def min_def)

text \<open>
  C8. The entries \<open>build_messages\<close> renders, \<open>history[-6:]\<close>, are the specification's
  \<open>window(6)\<close>. For every ledger and every \<open>n\<close>, \<open>window(n)\<close> has \<open>min(n, length)\<close>
  entries and is the end of the ledger, in the ledger's order (the ledger is some older
  part followed by the window, so the most recent entry is last); on ten entries it is
  the last \<open>min(n, 10)\<close>. For \<open>n\<close> of at least 1 the slice \<open>history[-n:]\<close> is \<open>window(n)\<close>.
  The summary lines of the prompt are numbered from 1 over \<open>window(6)\<close> in that order.
\<close>

theorem history_window:
  fixes ledger :: "'f pydict list"
  shows "hist_excerpt ledger = window 6 ledger
   \<and> length (window n ledger) = min n (length ledger)
   \<and> take (length ledger - min n (length ledger)) ledger @ window n ledger = ledger
   \<and> (length ledger = 10 \<longrightarrow> window n ledger = drop (10 - min n 10) ledger)
   \<and> (0 < n \<longrightarrow> slice_from (- int n) ledger = window n ledger)
   \<and> summary_lines (build_messages pc0 ledger input is_custom) =
       map (\<lambda>(i, h). (i, dict_get h ''narrative'' (PStr []), dict_get h ''choice_taken'' (PStr [])))
         (enumerate 1 (window 6 ledger))"
proof -
  have a: "hist_excerpt ledger = window 6 ledger"
    using slice_from_neg [of 6 ledger] by (simp add: hist_excerpt_def window_drop)
  have b: "length (window n ledger) = min n (length ledger)"
    by (simp add: window_def)
  have c: "take (length ledger - min n (length ledger)) ledger @ window n ledger = ledger"
    by (simp add: window_def)
  have d: "length ledger = 10 \<longrightarrow> window n ledger = drop (10 - min n 10) ledger"
    by (simp add: window_def)
  have e: "0 < n \<longrightarrow> slice_from (- int n) ledger = window n ledger"
    by (simp add: slice_from_neg window_drop)
  have f: "summary_lines (build_messages pc0 ledger input is_custom) =
       map (\<lambda>(i, h). (i, dict_get h ''narrative'' (PStr []), dict_get h ''choice_taken'' (PStr [])))
         (enumerate 1 (window 6 ledger))"
    by (simp add: build_messages_def a)
  from a b c d e f show ?thesis by blast
qed

theorem history_window_witness:
  "length ten_entries = 10 \<and> window 3 ten_entries = drop 7 ten_entries \<and> (0::nat) < 3
   \<and> slice_from (- 3) ten_entries = window 3 ten_entries
   \<and> window 3 ten_entries =
       [[(''scene_id'', PInt 8)], [(''scene_id'', PInt 9)], [(''scene_id'', PInt 10)]]"
  using history_window [of ten_entries 3] by (simp add: ten_entries_def window_def)

section \<open>What \<open>parse_llm_json\<close> accepts\<close>

text \<open>
  C1 (as stated, refuted). The claim has \<open>parse\<close> reject a decoded structure whose
  narrative is missing or empty, whose choices repeat or number six, or whose
  \<open>state_updates\<close> is not a mapping. \<open>parse_llm_json\<close> returns each of these five replies
  as decoded.
\<close>

theorem schema_violations_accepted:
  "parse_llm_json no_floats no_narrative_reply =
     PDict [(''scene_id'', PStr ''s1''), (''choices'', PList [PStr ''x'', PStr ''y''])]
   \<and> parse_llm_json no_floats empty_narrative_reply =
     PDict [(''scene_id'', PStr ''s1''), (''narrative'', PStr []),
            (''choices'', PList [PStr ''x'', PStr ''y''])]
   \<and> parse_llm_json no_floats duplicate_choices_reply =
     PDict [(''narrative'', PStr ''A''), (''choices'', PList [PStr ''x'', PStr ''x''])]
   \<and> parse_llm_json no_floats six_choices_reply =
     PDict [(''scene_id'', PStr ''s1''), (''narrative'', PStr ''A''),
            (''choices'',
             PList [PStr ''a'', PStr ''b'', PStr ''c'', PStr ''d'', PStr ''e'', PStr ''f''])]
   \<and> parse_llm_json no_floats list_updates_reply =
     PDict [(''scene_id'', PStr ''s1''), (''narrative'', PStr ''A''),
            (''choices'', PList [PStr ''x'']), (''state_updates'', PList [PInt 1])]"
  by code_simp

text \<open>
  C1 (amended). \<open>parse_llm_json\<close> validates no schema. For every raw text: when the text
  from its first opening brace decodes, the decoded value is returned as it is, whatever
  its fields; and every result other than \<open>None\<close> is the decoded value of the text from
  its first opening brace, or of the text with white space and backticks stripped from
  its ends.
\<close>

theorem parse_returns_decoded:
  "(str_index text (CHR ''{'') = Inr start \<and> json_loads fl (drop start text) = Some v
      \<longrightarrow> parse_llm_json fl text = v)
   \<and> (parse_llm_json fl text \<noteq> PNone \<longrightarrow>
        (\<exists>start. str_index text (CHR ''{'') = Inr start
            \<and> json_loads fl (drop start text) = Some (parse_llm_json fl text))
        \<or> json_loads fl (cleaned text) = Some (parse_llm_json fl text))"
  by (auto simp: parse_llm_json_def first_attempt_def split: option.splits sum.splits)

lemma duplicate_choices_index: "str_index duplicate_choices_reply (CHR ''{'') = Inr 6"
  by code_simp

lemma duplicate_choices_loads:
  "json_loads no_floats (drop 6 duplicate_choices_reply) =
     Some (PDict [(''narrative'', PStr ''A''), (''choices'', PList [PStr ''x'', PStr ''x''])])"
  by code_simp

theorem parse_returns_decoded_witness:
  "str_index duplicate_choices_reply (CHR ''{'') = Inr 6
   \<and> json_loads no_floats (drop 6 duplicate_choices_reply) =
       Some (PDict [(''narrative'', PStr ''A''), (''choices'', PList [PStr ''x'', PStr ''x''])])
   \<and> parse_llm_json no_floats duplicate_choices_reply =
       PDict [(''narrative'', PStr ''A''), (''choices'', PList [PStr ''x'', PStr ''x''])]
   \<and> parse_llm_json no_floats duplicate_choices_reply \<noteq> PNone"
  using parse_returns_decoded [of duplicate_choices_reply 6 no_floats
      "PDict [(''narrative'', PStr ''A''), (''choices'', PList [PStr ''x'', PStr ''x''])]"]
    duplicate_choices_index duplicate_choices_loads by simp

section \<open>Code fences\<close>

text \<open>
  C3 (the code at the failing input). The scenario's reply decodes on its own, and inside
  a bare fence with white space around it. Inside a fence tagged \<open>json\<close> the first attempt
  fails on the closing fence, the fallback strips the backticks but leaves the tag, and
  \<open>parse_llm_json\<close> returns \<open>None\<close>.
\<close>

theorem tagged_fence_rejected:
  "parse_llm_json no_floats scenario_reply = PDict scenario_parsed
   \<and> first_attempt no_floats tagged_fence_reply = None
   \<and> cleaned tagged_fence_reply = ''json'' @ [CHR 0x0A] @ scenario_reply
   \<and> parse_llm_json no_floats tagged_fence_reply = PNone
   \<and> parse_llm_json no_floats bare_fence_reply = PDict scenario_parsed"
  by code_simp

section \<open>The ways \<open>take_choice\<close> ends\<close>

lemma take_choice_cases:
  assumes "take_choice fl call_llm st c b = (out, st')"
  shows "(out = Returned \<and> st' = st)
       \<or> (out = Raised AttributeError \<and> st' = st)
       \<or> (\<exists>raw d kvs e pc1. call_llm (build_messages (pc st) (story_history st) c b) = Some raw
             \<and> parse_llm_json fl raw = PDict d \<and> get_state_updates fl d = PDict kvs
             \<and> apply_updates fl (pc st) kvs = (pc1, Some e)
             \<and> out = Raised e \<and> st' = st\<lparr>pc := pc1\<rparr>)
       \<or> (\<exists>raw d kvs pc1. call_llm (build_messages (pc st) (story_history st) c b) = Some raw
             \<and> parse_llm_json fl raw = PDict d \<and> get_state_updates fl d = PDict kvs
             \<and> apply_updates fl (pc st) kvs = (pc1, None)
             \<and> out = Rerun
             \<and> st' = st\<lparr>pc := pc1, story_history := story_history st @ [history_entry d c raw],
                          current_scene := Some (history_entry d c raw)\<rparr>)"
  using assms
  by (auto simp: take_choice_def Let_def split: option.splits pyval.splits if_splits prod.splits)

lemma take_choice_no_response:
  "call_llm (build_messages (pc st) (story_history st) c b) = None \<Longrightarrow>
   take_choice fl call_llm st c b = (Returned, st)"
  by (simp add: take_choice_def)

lemma take_choice_parse_failed:
  "call_llm (build_messages (pc st) (story_history st) c b) = Some raw \<Longrightarrow>
   parse_llm_json fl raw = PNone \<Longrightarrow>
   take_choice fl call_llm st c b = (Returned, st)"
  by (simp add: take_choice_def)

lemma take_choice_not_dict:
  "call_llm (build_messages (pc st) (story_history st) c b) = Some raw \<Longrightarrow>
   \<forall>d. parse_llm_json fl raw \<noteq> PDict d \<Longrightarrow>
   take_choice fl call_llm st c b = (Returned, st)
   \<or> take_choice fl call_llm st c b = (Raised AttributeError, st)"
  by (cases "parse_llm_json fl raw") (simp_all add: take_choice_def)

lemma take_choice_dict:
  "call_llm (build_messages (pc st) (story_history st) c b) = Some raw \<Longrightarrow>
   parse_llm_json fl raw = PDict d \<Longrightarrow>
   take_choice fl call_llm st c b =
     (case get_state_updates fl d of
        PDict kvs \<Rightarrow>
          (case apply_updates fl (pc st) kvs of
             (pc1, Some e) \<Rightarrow> (Raised e, st\<lparr>pc := pc1\<rparr>)
           | (pc1, None) \<Rightarrow>
               (Rerun, st\<lparr>pc := pc1, story_history := story_history st @ [history_entry d c raw],
                     current_scene := Some (history_entry d c raw)\<rparr>))
      | _ \<Rightarrow> (Raised AttributeError, st))"
  by (simp add: take_choice_def Let_def split: pyval.splits prod.splits option.splits)

lemma take_choice_not_dict_raises:
  "call_llm (build_messages (pc st) (story_history st) c b) = Some raw \<Longrightarrow>
   parse_llm_json fl raw \<noteq> PNone \<Longrightarrow> \<forall>d. parse_llm_json fl raw \<noteq> PDict d \<Longrightarrow>
   take_choice fl call_llm st c b = (Raised AttributeError, st)"
  by (cases "parse_llm_json fl raw") (simp_all add: take_choice_def)

lemma take_choice_updates_not_dict:
  "call_llm (build_messages (pc st) (story_history st) c b) = Some raw \<Longrightarrow>
   parse_llm_json fl raw = PDict d \<Longrightarrow> \<forall>kvs. get_state_updates fl d \<noteq> PDict kvs \<Longrightarrow>
   take_choice fl call_llm st c b = (Raised AttributeError, st)"
  using take_choice_dict [of call_llm st c b raw fl d]
  by (cases "get_state_updates fl d") simp_all

lemma take_choice_loop_raises:
  "call_llm (build_messages (pc st) (story_history st) c b) = Some raw \<Longrightarrow>
   parse_llm_json fl raw = PDict d \<Longrightarrow> get_state_updates fl d = PDict kvs \<Longrightarrow>
   apply_updates fl (pc st) kvs = (pc1, Some e) \<Longrightarrow>
   take_choice fl call_llm st c b = (Raised e, st\<lparr>pc := pc1\<rparr>)"
  using take_choice_dict [of call_llm st c b raw fl d] by simp

lemma take_choice_completes:
  "call_llm (build_messages (pc st) (story_history st) c b) = Some raw \<Longrightarrow>
   parse_llm_json fl raw = PDict d \<Longrightarrow> get_state_updates fl d = PDict kvs \<Longrightarrow>
   apply_updates fl (pc st) kvs = (pc1, None) \<Longrightarrow>
   take_choice fl call_llm st c b =
     (Rerun, st\<lparr>pc := pc1, story_history := story_history st @ [history_entry d c raw],
               current_scene := Some (history_entry d c raw)\<rparr>)"
  using take_choice_dict [of call_llm st c b raw fl d] by simp

lemma take_choice_not_rerun:
  assumes "take_choice fl call_llm st c b = (out, st')" and "out \<noteq> Rerun"
  shows "story_history st' = story_history st \<and> current_scene st' = current_scene st"
  using take_choice_cases [OF assms(1)] assms(2) by auto

lemma take_choice_returned:
  assumes "take_choice fl call_llm st c b = (Returned, st')"
  shows "st' = st"
  using take_choice_cases [OF assms] by auto

section \<open>Replies evaluated\<close>

lemma empty_reply: "parse_llm_json no_floats [] = PNone"
  by code_simp

lemma list_reply_parse: "parse_llm_json no_floats ''[1]'' = PList [PInt 1]"
  by code_simp

lemma list_updates_parse:
  "parse_llm_json no_floats list_updates_reply =
     PDict [(''scene_id'', PStr ''s1''), (''narrative'', PStr ''A''),
            (''choices'', PList [PStr ''x'']), (''state_updates'', PList [PInt 1])]"
  by code_simp

lemma name_update_parse:
  "parse_llm_json no_floats name_update_reply =
     PDict [(''scene_id'', PStr ''s2''), (''narrative'', PStr ''B''),
            (''choices'', PList [PStr ''x'']),
            (''state_updates'', PDict [(''hp'', PInt (- 2)), (''name'', PInt 1)])]"
  by code_simp

lemma name_update_loop:
  "apply_updates no_floats (Some [(''name'', PStr ''Aryn''), (''hp'', PInt 10)])
       [(''hp'', PInt (- 2)), (''name'', PInt 1)] =
     (Some [(''name'', PStr ''Aryn''), (''hp'', PInt 8)], Some TypeError)"
  by code_simp

lemma list_updates_su:
  "get_state_updates no_floats
        [(''scene_id'', PStr ''s1''), (''narrative'', PStr ''A''),
         (''choices'', PList [PStr ''x'']), (''state_updates'', PList [PInt 1])] = PList [PInt 1]"
  by (simp add: get_state_updates_def dict_get_def)

lemma name_update_su:
  "get_state_updates no_floats
        [(''scene_id'', PStr ''s2''), (''narrative'', PStr ''B''),
         (''choices'', PList [PStr ''x'']),
         (''state_updates'', PDict [(''hp'', PInt (- 2)), (''name'', PInt 1)])]
       = PDict [(''hp'', PInt (- 2)), (''name'', PInt 1)]"
  by (simp add: get_state_updates_def dict_get_def)

lemma scenario_su: "get_state_updates no_floats scenario_parsed = PDict [(''hp'', PInt (- 2))]"
  by (simp add: get_state_updates_def dict_get_def scenario_parsed_def)

lemma name_update_loop_named:
  "apply_updates no_floats (pc named_state) [(''hp'', PInt (- 2)), (''name'', PInt 1)] =
        (Some [(''name'', PStr ''Aryn''), (''hp'', PInt 8)], Some TypeError)"
  using name_update_loop by (simp add: named_state_def)

lemma scenario_loop:
  "apply_updates no_floats (pc scenario_state) [(''hp'', PInt (- 2))] =
        (Some [(''hp'', PInt 8), (''strength'', PInt 5)], None)"
  using scenario_updates by (simp add: scenario_state_def)

section \<open>Failure and the session\<close>

text \<open>
  C2 (as stated, refuted). The claim has \<open>advance\<close> change the character and the ledger
  together or not at all. With the character \<open>{name: "Aryn", hp: 10}\<close> and a reply whose
  \<open>state_updates\<close> is \<open>{"hp": -2, "name": 1}\<close>, the loop lowers \<open>hp\<close> to 8 and then
  raises TypeError on \<open>"Aryn" + 1\<close>: the character has changed, the history has not.
\<close>

theorem partial_update_counterexample:
  "take_choice no_floats (\<lambda>m. Some name_update_reply) named_state ''x'' False =
     (Raised TypeError,
      \<lparr>pc = Some [(''name'', PStr ''Aryn''), (''hp'', PInt 8)],
       story_history = [], current_scene = Some (prologue ''Aryn'')\<rparr>)
   \<and> pc named_state = Some [(''name'', PStr ''Aryn''), (''hp'', PInt 10)]
   \<and> story_history named_state = []"
  by code_simp

text \<open>
  C2 (amended). For every session state, \<open>take_choice\<close> leaves character, history and
  current scene exactly as they were when the backend gives no text, when
  \<open>parse_llm_json\<close> returns \<open>None\<close>, when the reply decodes to something that is not a
  mapping, and when its \<open>state_updates\<close> is a true value that is not a mapping. When the
  update loop raises part-way, history and current scene are exactly as they were and
  the character is as the loop left it. When the call runs to its end, every update has
  been applied and exactly one entry has been appended and made the current scene. So
  history and current scene change only on success, and on every early return the whole
  session is unchanged.
\<close>

theorem failure_leaves_session:
  "(call_llm (build_messages (pc st) (story_history st) c b) = None
      \<longrightarrow> take_choice fl call_llm st c b = (Returned, st))
   \<and> (call_llm (build_messages (pc st) (story_history st) c b) = Some raw
        \<and> parse_llm_json fl raw = PNone
      \<longrightarrow> take_choice fl call_llm st c b = (Returned, st))
   \<and> (call_llm (build_messages (pc st) (story_history st) c b) = Some raw
        \<and> parse_llm_json fl raw \<noteq> PNone \<and> (\<forall>d. parse_llm_json fl raw \<noteq> PDict d)
      \<longrightarrow> take_choice fl call_llm st c b = (Raised AttributeError, st))
   \<and> (call_llm (build_messages (pc st) (story_history st) c b) = Some raw
        \<and> parse_llm_json fl raw = PDict d \<and> (\<forall>kvs. get_state_updates fl d \<noteq> PDict kvs)
      \<longrightarrow> take_choice fl call_llm st c b = (Raised AttributeError, st))
   \<and> (call_llm (build_messages (pc st) (story_history st) c b) = Some raw
        \<and> parse_llm_json fl raw = PDict d \<and> get_state_updates fl d = PDict kvs
        \<and> apply_updates fl (pc st) kvs = (pc1, Some e)
      \<longrightarrow> take_choice fl call_llm st c b = (Raised e, st\<lparr>pc := pc1\<rparr>))
   \<and> (call_llm (build_messages (pc st) (story_history st) c b) = Some raw
        \<and> parse_llm_json fl raw = PDict d \<and> get_state_updates fl d = PDict kvs
        \<and> apply_updates fl (pc st) kvs = (pc1, None)
      \<longrightarrow> take_choice fl call_llm st c b =
            (Rerun, st\<lparr>pc := pc1, story_history := story_history st @ [history_entry d c raw],
                      current_scene := Some (history_entry d c raw)\<rparr>))
   \<and> (take_choice fl call_llm st c b = (out, st') \<and> out \<noteq> Rerun
      \<longrightarrow> story_history st' = story_history st \<and> current_scene st' = current_scene st)
   \<and> (take_choice fl call_llm st c b = (Returned, st') \<longrightarrow> st' = st)"
  using take_choice_no_response [of call_llm st c b fl]
    take_choice_parse_failed [of call_llm st c b raw fl]
    take_choice_not_dict_raises [of call_llm st c b raw fl]
    take_choice_updates_not_dict [of call_llm st c b raw fl d]
    take_choice_loop_raises [of call_llm st c b raw fl d kvs pc1 e]
    take_choice_completes [of call_llm st c b raw fl d kvs pc1]
    take_choice_not_rerun [of fl call_llm st c b out st']
    take_choice_returned [of fl call_llm st c b st']
  by blast

theorem failure_leaves_session_witness:
  "take_choice no_floats (\<lambda>m. None) scenario_state ''begin'' True = (Returned, scenario_state)
   \<and> parse_llm_json no_floats [] = PNone
   \<and> take_choice no_floats (\<lambda>m. Some []) scenario_state ''begin'' True = (Returned, scenario_state)
   \<and> parse_llm_json no_floats ''[1]'' = PList [PInt 1]
   \<and> take_choice no_floats (\<lambda>m. Some ''[1]'') named_state ''x'' False =
        (Raised AttributeError, named_state)
   \<and> get_state_updates no_floats
        [(''scene_id'', PStr ''s1''), (''narrative'', PStr ''A''),
         (''choices'', PList [PStr ''x'']), (''state_updates'', PList [PInt 1])] = PList [PInt 1]
   \<and> take_choice no_floats (\<lambda>m. Some list_updates_reply) named_state ''x'' False =
        (Raised AttributeError, named_state)
   \<and> apply_updates no_floats (pc named_state) [(''hp'', PInt (- 2)), (''name'', PInt 1)] =
        (Some [(''name'', PStr ''Aryn''), (''hp'', PInt 8)], Some TypeError)
   \<and> take_choice no_floats (\<lambda>m. Some name_update_reply) named_state ''x'' False =
        (Raised TypeError, named_state\<lparr>pc := Some [(''name'', PStr ''Aryn''), (''hp'', PInt 8)]\<rparr>)
   \<and> story_history (named_state\<lparr>pc := Some [(''name'', PStr ''Aryn''), (''hp'', PInt 8)]\<rparr>)
        = story_history named_state
   \<and> apply_updates no_floats (pc scenario_state) [(''hp'', PInt (- 2))] =
        (Some [(''hp'', PInt 8), (''strength'', PInt 5)], None)
   \<and> take_choice no_floats (\<lambda>m. Some scenario_reply) scenario_state ''begin'' True =
       (Rerun,
        scenario_state\<lparr>pc := Some [(''hp'', PInt 8), (''strength'', PInt 5)],
          story_history := story_history scenario_state @ [history_entry scenario_parsed ''begin'' scenario_reply],
          current_scene := Some (history_entry scenario_parsed ''begin'' scenario_reply)\<rparr>)"
proof -
  have su1: "get_state_updates no_floats
        [(''scene_id'', PStr ''s1''), (''narrative'', PStr ''A''),
         (''choices'', PList [PStr ''x'']), (''state_updates'', PList [PInt 1])] = PList [PInt 1]"
    by (simp add: get_state_updates_def dict_get_def)
  have su2: "get_state_updates no_floats
        [(''scene_id'', PStr ''s2''), (''narrative'', PStr ''B''),
         (''choices'', PList [PStr ''x'']),
         (''state_updates'', PDict [(''hp'', PInt (- 2)), (''name'', PInt 1)])]
       = PDict [(''hp'', PInt (- 2)), (''name'', PInt 1)]"
    by (simp add: get_state_updates_def dict_get_def)
  have su3: "get_state_updates no_floats scenario_parsed = PDict [(''hp'', PInt (- 2))]"
    by (simp add: get_state_updates_def dict_get_def scenario_parsed_def)
  have lp2: "apply_updates no_floats (pc named_state) [(''hp'', PInt (- 2)), (''name'', PInt 1)] =
        (Some [(''name'', PStr ''Aryn''), (''hp'', PInt 8)], Some TypeError)"
    using name_update_loop by (simp add: named_state_def)
  have lp3: "apply_updates no_floats (pc scenario_state) [(''hp'', PInt (- 2))] =
        (Some [(''hp'', PInt 8), (''strength'', PInt 5)], None)"
    using scenario_updates by (simp add: scenario_state_def)
  note th = failure_leaves_session
  have 1: "take_choice no_floats (\<lambda>m. None) scenario_state ''begin'' True = (Returned, scenario_state)"
    by (rule th [where call_llm = "\<lambda>m. None", THEN conjunct1, THEN mp]) simp
  have 2: "take_choice no_floats (\<lambda>m. Some []) scenario_state ''begin'' True = (Returned, scenario_state)"
    by (rule th [where call_llm = "\<lambda>m. Some []" and raw = "[]",
          THEN conjunct2, THEN conjunct1, THEN mp])
       (simp add: empty_reply)
  have 3: "take_choice no_floats (\<lambda>m. Some ''[1]'') named_state ''x'' False =
        (Raised AttributeError, named_state)"
    by (rule th [where call_llm = "\<lambda>m. Some ''[1]''" and raw = "''[1]''",
          THEN conjunct2, THEN conjunct2, THEN conjunct1, THEN mp])
       (simp add: list_reply_parse)
  have 4: "take_choice no_floats (\<lambda>m. Some list_updates_reply) named_state ''x'' False =
        (Raised AttributeError, named_state)"
    by (rule th [where call_llm = "\<lambda>m. Some list_updates_reply" and raw = list_updates_reply
          and d = "[(''scene_id'', PStr ''s1''), (''narrative'', PStr ''A''),
             (''choices'', PList [PStr ''x'']), (''state_updates'', PList [PInt 1])]",
          THEN conjunct2, THEN conjunct2, THEN conjunct2, THEN conjunct1, THEN mp])
       (simp add: list_updates_parse su1)
  have 5: "take_choice no_floats (\<lambda>m. Some name_update_reply) named_state ''x'' False =
        (Raised TypeError, named_state\<lparr>pc := Some [(''name'', PStr ''Aryn''), (''hp'', PInt 8)]\<rparr>)"
    by (rule th [where call_llm = "\<lambda>m. Some name_update_reply" and raw = name_update_reply
          and d = "[(''scene_id'', PStr ''s2''), (''narrative'', PStr ''B''),
             (''choices'', PList [PStr ''x'']),
             (''state_updates'', PDict [(''hp'', PInt (- 2)), (''name'', PInt 1)])]"
          and kvs = "[(''hp'', PInt (- 2)), (''name'', PInt 1)]",
          THEN conjunct2, THEN conjunct2, THEN conjunct2, THEN conjunct2, THEN conjunct1, THEN mp])
       (simp only: name_update_parse su2 lp2 simp_thms)
  have 6: "take_choice no_floats (\<lambda>m. Some scenario_reply) scenario_state ''begin'' True =
       (Rerun,
        scenario_state\<lparr>pc := Some [(''hp'', PInt 8), (''strength'', PInt 5)],
          story_history := story_history scenario_state @ [history_entry scenario_parsed ''begin'' scenario_reply],
          current_scene := Some (history_entry scenario_parsed ''begin'' scenario_reply)\<rparr>)"
    by (rule th [where call_llm = "\<lambda>m. Some scenario_reply" and raw = scenario_reply
          and d = scenario_parsed and kvs = "[(''hp'', PInt (- 2))]",
          THEN conjunct2, THEN conjunct2, THEN conjunct2, THEN conjunct2, THEN conjunct2,
          THEN conjunct1, THEN mp])
       (simp only: scenario_parse su3 lp3 simp_thms)
  have 7: "story_history (named_state\<lparr>pc := Some [(''name'', PStr ''Aryn''), (''hp'', PInt 8)]\<rparr>)
        = story_history named_state"
    using th [where call_llm = "\<lambda>m. Some name_update_reply" and st = named_state and c = "''x''"
          and b = False and fl = no_floats and out = "Raised TypeError"
          and st' = "named_state\<lparr>pc := Some [(''name'', PStr ''Aryn''), (''hp'', PInt 8)]\<rparr>",
          THEN conjunct2, THEN conjunct2, THEN conjunct2, THEN conjunct2, THEN conjunct2,
          THEN conjunct2, THEN conjunct1, THEN mp] 5
    by simp
  from 1 2 3 4 5 6 7 empty_reply list_reply_parse su1 lp2 lp3 show ?thesis by (simp only: simp_thms)
qed

section \<open>The state updates\<close>

lemma update_one_map_of:
  assumes "update_one fl (Some d) k v = Inr d'"
  shows "map_of d' = (map_of d)(k \<mapsto> dict_get d' k PNone)"
    and "is_int_or_float v \<Longrightarrow> py_add fl (dict_get d k (PInt 0)) v = Inr (dict_get d' k PNone)"
    and "\<not> is_int_or_float v \<Longrightarrow> dict_get d' k PNone = v"
  using assms
  by (auto simp: update_one_def dict_get_def update_conv' split: if_splits sum.splits)



lemma apply_updates_completes:
  assumes "distinct (map fst kvs)"
    and "\<forall>(k, v) \<in> set kvs. is_int_or_float v \<longrightarrow> (\<exists>w. py_add fl (dict_get d k (PInt 0)) v = Inr w)"
  shows "\<exists>d'. apply_updates fl (Some d) kvs = (Some d', None)"
  using assms
proof (induction kvs arbitrary: d)
  case Nil
  then show ?case by simp
next
  case (Cons kv kvs)
  obtain k0 v0 where kv: "kv = (k0, v0)" by (cases kv)
  from Cons.prems(1) kv have dist: "distinct (map fst kvs)" and fresh: "k0 \<notin> fst ` set kvs"
    by auto
  from Cons.prems(2) kv obtain d1 where d1: "update_one fl (Some d) k0 v0 = Inr d1"
    by (cases "is_int_or_float v0") (auto simp: update_one_def)
  have "\<forall>(k, v) \<in> set kvs. is_int_or_float v \<longrightarrow> (\<exists>w. py_add fl (dict_get d1 k (PInt 0)) v = Inr w)"
  proof (clarify)
    fix k v assume mem: "(k, v) \<in> set kvs" and num: "is_int_or_float v"
    with fresh have "k \<noteq> k0" by force
    with update_one_map_of(1) [OF d1] have "map_of d1 k = map_of d k" by simp
    then have "dict_get d1 k (PInt 0) = dict_get d k (PInt 0)" by (simp add: dict_get_def)
    with Cons.prems(2) mem num show "\<exists>w. py_add fl (dict_get d1 k (PInt 0)) v = Inr w" by auto
  qed
  from Cons.IH [OF dist this] d1 kv show ?case by simp
qed

lemma py_add_ints: "as_int a = Some i \<Longrightarrow> as_int b = Some j \<Longrightarrow> py_add fl a b = Inr (PInt (i + j))"
  by (cases a; cases b) (simp_all add: py_add_def)








section \<open>The entry a decoded reply leaves\<close>

lemma begin_adventure_dict:
  "call_llm (build_messages (pc st) (story_history st) start_prompt True) = Some raw \<Longrightarrow>
   parse_llm_json fl raw = PDict d \<Longrightarrow>
   begin_adventure fl call_llm st =
     (Rerun, st\<lparr>story_history := story_history st @ [history_entry d [] raw],
               current_scene := Some (history_entry d [] raw)\<rparr>)"
  by (simp add: begin_adventure_def Let_def)

lemma take_choice_applicable:
  assumes "call_llm (build_messages (pc st) (story_history st) c b) = Some raw"
    and "parse_llm_json fl raw = PDict d"
    and "pc st = Some dct"
    and "get_state_updates fl d = PDict kvs"
    and "distinct (map fst kvs)"
    and "\<forall>(k, v) \<in> set kvs. is_int_or_float v \<longrightarrow>
           (\<exists>w. py_add fl (dict_get dct k (PInt 0)) v = Inr w)"
  shows "\<exists>pc1. take_choice fl call_llm st c b =
           (Rerun, st\<lparr>pc := pc1, story_history := story_history st @ [history_entry d c raw],
                     current_scene := Some (history_entry d c raw)\<rparr>)"
proof -
  from apply_updates_completes [OF assms(5,6)] obtain d' where
    "apply_updates fl (Some dct) kvs = (Some d', None)" by blast
  with assms(3) have "apply_updates fl (pc st) kvs = (Some d', None)" by simp
  from take_choice_completes [of call_llm st c b raw fl d kvs "Some d'", OF assms(1,2,4) this]
  show ?thesis by blast
qed

lemma take_choice_no_updates:
  assumes "call_llm (build_messages (pc st) (story_history st) c b) = Some raw"
    and "parse_llm_json fl raw = PDict d"
    and "\<not> truthy fl (dict_get d ''state_updates'' PNone)"
  shows "take_choice fl call_llm st c b =
           (Rerun, st\<lparr>story_history := story_history st @ [history_entry d c raw],
                     current_scene := Some (history_entry d c raw)\<rparr>)"
  using take_choice_dict [of call_llm st c b raw fl d, OF assms(1,2)] assms(3)
  by (simp add: get_state_updates_def)

text \<open>
  C10 (as stated, refuted). The claim has every reply that decodes to a mapping append
  an entry. The reply whose \<open>state_updates\<close> is the list \<open>[1]\<close> decodes to a mapping, and
  \<open>take_choice\<close> raises AttributeError at \<open>updates.items()\<close> without appending anything.
\<close>

theorem list_updates_not_appended:
  "parse_llm_json no_floats list_updates_reply =
     PDict [(''scene_id'', PStr ''s1''), (''narrative'', PStr ''A''),
            (''choices'', PList [PStr ''x'']), (''state_updates'', PList [PInt 1])]
   \<and> take_choice no_floats (\<lambda>m. Some list_updates_reply) named_state ''x'' False =
       (Raised AttributeError, named_state)
   \<and> story_history named_state = []"
  by code_simp

text \<open>
  C10 (amended). For every reply that \<open>parse_llm_json\<close> decodes to a mapping,
  \<open>take_choice\<close> appends exactly one entry, which becomes the current scene, whenever the
  update loop completes on \<open>parsed.get("state_updates") or {}\<close>: always when
  \<open>state_updates\<close> is absent or false (null, empty, zero), and when it is a mapping
  whose numeric updates \<open>+\<close> can apply to the character. It raises and appends nothing
  exactly when \<open>state_updates\<close> is a true value that is not a mapping (AttributeError) or
  the loop raises. The opening-scene request appends such an entry for every reply that
  decodes to a mapping, without applying \<open>state_updates\<close>. The entry's \<open>scene_id\<close>,
  \<open>narrative\<close> and \<open>choices\<close> are those of the decoded mapping where present and \<open>None\<close>
  where absent: no field is checked in between, and an entry without narrative and
  choices becomes the current scene.
\<close>

theorem mapping_reply_appended:
  "(call_llm (build_messages (pc st) (story_history st) c b) = Some raw
      \<and> parse_llm_json fl raw = PDict d \<and> get_state_updates fl d = PDict kvs
      \<and> apply_updates fl (pc st) kvs = (pc1, None)
    \<longrightarrow> take_choice fl call_llm st c b =
          (Rerun, st\<lparr>pc := pc1, story_history := story_history st @ [history_entry d c raw],
                    current_scene := Some (history_entry d c raw)\<rparr>))
   \<and> (call_llm (build_messages (pc st) (story_history st) c b) = Some raw
      \<and> parse_llm_json fl raw = PDict d \<and> get_state_updates fl d = PDict kvs
      \<and> apply_updates fl (pc st) kvs = (pc1, Some e)
    \<longrightarrow> take_choice fl call_llm st c b = (Raised e, st\<lparr>pc := pc1\<rparr>))
   \<and> (call_llm (build_messages (pc st) (story_history st) c b) = Some raw
      \<and> parse_llm_json fl raw = PDict d \<and> (\<forall>kvs. get_state_updates fl d \<noteq> PDict kvs)
    \<longrightarrow> take_choice fl call_llm st c b = (Raised AttributeError, st))
   \<and> get_state_updates fl d =
        (if truthy fl (dict_get d ''state_updates'' PNone)
         then dict_get d ''state_updates'' PNone else PDict [])
   \<and> (call_llm (build_messages (pc st) (story_history st) c b) = Some raw
      \<and> parse_llm_json fl raw = PDict d \<and> pc st = Some dct
      \<and> get_state_updates fl d = PDict kvs \<and> distinct (map fst kvs)
      \<and> (\<forall>(k, v) \<in> set kvs. is_int_or_float v \<longrightarrow>
            (\<exists>w. py_add fl (dict_get dct k (PInt 0)) v = Inr w))
    \<longrightarrow> (\<exists>pc2. take_choice fl call_llm st c b =
          (Rerun, st\<lparr>pc := pc2, story_history := story_history st @ [history_entry d c raw],
                    current_scene := Some (history_entry d c raw)\<rparr>)))
   \<and> (call_llm (build_messages (pc st) (story_history st) c b) = Some raw
      \<and> parse_llm_json fl raw = PDict d
      \<and> \<not> truthy fl (dict_get d ''state_updates'' PNone)
    \<longrightarrow> take_choice fl call_llm st c b =
          (Rerun, st\<lparr>story_history := story_history st @ [history_entry d c raw],
                    current_scene := Some (history_entry d c raw)\<rparr>))
   \<and> history_entry d c raw =
        [(''scene_id'', case map_of d ''scene_id'' of None \<Rightarrow> PNone | Some v \<Rightarrow> v),
         (''narrative'', case map_of d ''narrative'' of None \<Rightarrow> PNone | Some v \<Rightarrow> v),
         (''choices'', case map_of d ''choices'' of None \<Rightarrow> PNone | Some v \<Rightarrow> v),
         (''choice_taken'', PStr c), (''raw_llm'', PStr raw)]
   \<and> (call_llm (build_messages (pc st) (story_history st) start_prompt True) = Some raw
      \<and> parse_llm_json fl raw = PDict d
    \<longrightarrow> begin_adventure fl call_llm st =
          (Rerun, st\<lparr>story_history := story_history st @ [history_entry d [] raw],
                    current_scene := Some (history_entry d [] raw)\<rparr>))"
proof -
  have e: "history_entry d c raw =
        [(''scene_id'', case map_of d ''scene_id'' of None \<Rightarrow> PNone | Some v \<Rightarrow> v),
         (''narrative'', case map_of d ''narrative'' of None \<Rightarrow> PNone | Some v \<Rightarrow> v),
         (''choices'', case map_of d ''choices'' of None \<Rightarrow> PNone | Some v \<Rightarrow> v),
         (''choice_taken'', PStr c), (''raw_llm'', PStr raw)]"
    by (simp add: history_entry_def dict_get_def)
  have g: "get_state_updates fl d =
        (if truthy fl (dict_get d ''state_updates'' PNone)
         then dict_get d ''state_updates'' PNone else PDict [])"
    by (simp add: get_state_updates_def)
  from e g
    take_choice_completes [of call_llm st c b raw fl d kvs pc1]
    take_choice_loop_raises [of call_llm st c b raw fl d kvs pc1 e]
    take_choice_updates_not_dict [of call_llm st c b raw fl d]
    take_choice_applicable [of call_llm st c b raw fl d dct kvs]
    take_choice_no_updates [of call_llm st c b raw fl d]
    begin_adventure_dict [of call_llm st raw fl d]
  show ?thesis by blast
qed

lemma only_scene_id_parse:
  "parse_llm_json no_floats only_scene_id_reply = PDict [(''scene_id'', PStr ''s9'')]"
  by code_simp

theorem mapping_reply_appended_witness:
  "take_choice no_floats (\<lambda>m. Some scenario_reply) scenario_state ''begin'' True =
       (Rerun,
        scenario_state\<lparr>pc := Some [(''hp'', PInt 8), (''strength'', PInt 5)],
          story_history := story_history scenario_state @ [history_entry scenario_parsed ''begin'' scenario_reply],
          current_scene := Some (history_entry scenario_parsed ''begin'' scenario_reply)\<rparr>)
   \<and> take_choice no_floats (\<lambda>m. Some name_update_reply) named_state ''x'' False =
        (Raised TypeError, named_state\<lparr>pc := Some [(''name'', PStr ''Aryn''), (''hp'', PInt 8)]\<rparr>)
   \<and> take_choice no_floats (\<lambda>m. Some list_updates_reply) named_state ''x'' False =
        (Raised AttributeError, named_state)
   \<and> (\<exists>pc2. take_choice no_floats (\<lambda>m. Some scenario_reply) scenario_state ''begin'' True =
       (Rerun,
        scenario_state\<lparr>pc := pc2,
          story_history := story_history scenario_state @ [history_entry scenario_parsed ''begin'' scenario_reply],
          current_scene := Some (history_entry scenario_parsed ''begin'' scenario_reply)\<rparr>))
   \<and> take_choice no_floats (\<lambda>m. Some only_scene_id_reply) named_state ''x'' False =
       (Rerun,
        named_state\<lparr>story_history := story_history named_state @
            [history_entry [(''scene_id'', PStr ''s9'')] ''x'' only_scene_id_reply],
          current_scene := Some (history_entry [(''scene_id'', PStr ''s9'')] ''x'' only_scene_id_reply)\<rparr>)
   \<and> history_entry [(''scene_id'', PStr ''s9'')] ''x'' only_scene_id_reply =
        [(''scene_id'', PStr ''s9''), (''narrative'', PNone), (''choices'', PNone),
         (''choice_taken'', PStr ''x''), (''raw_llm'', PStr only_scene_id_reply)]
   \<and> begin_adventure no_floats (\<lambda>m. Some only_scene_id_reply) scenario_state =
       (Rerun,
        scenario_state\<lparr>story_history := story_history scenario_state @
            [history_entry [(''scene_id'', PStr ''s9'')] [] only_scene_id_reply],
          current_scene := Some (history_entry [(''scene_id'', PStr ''s9'')] [] only_scene_id_reply)\<rparr>)"
proof -
  note th = mapping_reply_appended
  have 1: "take_choice no_floats (\<lambda>m. Some scenario_reply) scenario_state ''begin'' True =
       (Rerun,
        scenario_state\<lparr>pc := Some [(''hp'', PInt 8), (''strength'', PInt 5)],
          story_history := story_history scenario_state @ [history_entry scenario_parsed ''begin'' scenario_reply],
          current_scene := Some (history_entry scenario_parsed ''begin'' scenario_reply)\<rparr>)"
    by (rule th [where call_llm = "\<lambda>m. Some scenario_reply" and raw = scenario_reply
          and d = scenario_parsed and kvs = "[(''hp'', PInt (- 2))]",
          THEN conjunct1, THEN mp])
       (simp only: scenario_parse scenario_su scenario_loop simp_thms)
  have 2: "take_choice no_floats (\<lambda>m. Some name_update_reply) named_state ''x'' False =
        (Raised TypeError, named_state\<lparr>pc := Some [(''name'', PStr ''Aryn''), (''hp'', PInt 8)]\<rparr>)"
    by (rule th [where call_llm = "\<lambda>m. Some name_update_reply" and raw = name_update_reply
          and d = "[(''scene_id'', PStr ''s2''), (''narrative'', PStr ''B''),
             (''choices'', PList [PStr ''x'']),
             (''state_updates'', PDict [(''hp'', PInt (- 2)), (''name'', PInt 1)])]"
          and kvs = "[(''hp'', PInt (- 2)), (''name'', PInt 1)]",
          THEN conjunct2, THEN conjunct1, THEN mp])
       (simp only: name_update_parse name_update_su name_update_loop_named simp_thms)
  have 3: "take_choice no_floats (\<lambda>m. Some list_updates_reply) named_state ''x'' False =
        (Raised AttributeError, named_state)"
    by (rule th [where call_llm = "\<lambda>m. Some list_updates_reply" and raw = list_updates_reply
          and d = "[(''scene_id'', PStr ''s1''), (''narrative'', PStr ''A''),
             (''choices'', PList [PStr ''x'']), (''state_updates'', PList [PInt 1])]",
          THEN conjunct2, THEN conjunct2, THEN conjunct1, THEN mp])
       (simp add: list_updates_parse list_updates_su)
  have 5: "\<exists>pc2. take_choice no_floats (\<lambda>m. Some scenario_reply) scenario_state ''begin'' True =
       (Rerun,
        scenario_state\<lparr>pc := pc2,
          story_history := story_history scenario_state @ [history_entry scenario_parsed ''begin'' scenario_reply],
          current_scene := Some (history_entry scenario_parsed ''begin'' scenario_reply)\<rparr>)"
    by (rule th [where call_llm = "\<lambda>m. Some scenario_reply" and raw = scenario_reply
          and d = scenario_parsed and kvs = "[(''hp'', PInt (- 2))]"
          and dct = "[(''hp'', PInt 10), (''strength'', PInt 5)]",
          THEN conjunct2, THEN conjunct2, THEN conjunct2, THEN conjunct2, THEN conjunct1, THEN mp])
       (simp add: scenario_parse scenario_su scenario_state_def dict_get_def py_add_def)
  have 6: "take_choice no_floats (\<lambda>m. Some only_scene_id_reply) named_state ''x'' False =
       (Rerun,
        named_state\<lparr>story_history := story_history named_state @
            [history_entry [(''scene_id'', PStr ''s9'')] ''x'' only_scene_id_reply],
          current_scene := Some (history_entry [(''scene_id'', PStr ''s9'')] ''x'' only_scene_id_reply)\<rparr>)"
    by (rule th [where call_llm = "\<lambda>m. Some only_scene_id_reply" and raw = only_scene_id_reply
          and d = "[(''scene_id'', PStr ''s9'')]",
          THEN conjunct2, THEN conjunct2, THEN conjunct2, THEN conjunct2, THEN conjunct2,
          THEN conjunct1, THEN mp])
       (simp add: only_scene_id_parse dict_get_def)
  have 7: "history_entry [(''scene_id'', PStr ''s9'')] ''x'' only_scene_id_reply =
        [(''scene_id'', PStr ''s9''), (''narrative'', PNone), (''choices'', PNone),
         (''choice_taken'', PStr ''x''), (''raw_llm'', PStr only_scene_id_reply)]"
    using th [where d = "[(''scene_id'', PStr ''s9'')]" and c = "''x''" and raw = only_scene_id_reply,
          THEN conjunct2, THEN conjunct2, THEN conjunct2, THEN conjunct2, THEN conjunct2,
          THEN conjunct2, THEN conjunct1]
    by simp
  have 8: "begin_adventure no_floats (\<lambda>m. Some only_scene_id_reply) scenario_state =
       (Rerun,
        scenario_state\<lparr>story_history := story_history scenario_state @
            [history_entry [(''scene_id'', PStr ''s9'')] [] only_scene_id_reply],
          current_scene := Some (history_entry [(''scene_id'', PStr ''s9'')] [] only_scene_id_reply)\<rparr>)"
    by (rule th [where call_llm = "\<lambda>m. Some only_scene_id_reply" and raw = only_scene_id_reply
          and d = "[(''scene_id'', PStr ''s9'')]",
          THEN conjunct2, THEN conjunct2, THEN conjunct2, THEN conjunct2, THEN conjunct2,
          THEN conjunct2, THEN conjunct2, THEN mp])
       (simp add: only_scene_id_parse)
  from 1 2 3 5 6 7 8 show ?thesis by (simp only: simp_thms)
qed

section \<open>Where the updates are written\<close>

lemma apply_updates_in_place_eq:
  "apply_updates_in_place fl h r kvs =
     (h(r := fst (apply_updates fl (h r) kvs)), snd (apply_updates fl (h r) kvs))"
proof (induction kvs arbitrary: h)
  case Nil
  show ?case by simp
next
  case (Cons kv kvs)
  obtain k v where kv: "kv = (k, v)" by (cases kv)
  show ?case
  proof (cases "update_one fl (h r) k v")
    case (Inl e)
    with kv show ?thesis by simp
  next
    case (Inr d)
    have at_r: "(h(r \<mapsto> d)) r = Some d" by simp
    have "apply_updates_in_place fl (h(r \<mapsto> d)) r kvs =
        (h(r := fst (apply_updates fl (Some d) kvs)), snd (apply_updates fl (Some d) kvs))"
      using Cons.IH [of "h(r \<mapsto> d)"] by (simp only: at_r fun_upd_upd)
    moreover have "apply_updates_in_place fl h r (kv # kvs) =
        apply_updates_in_place fl (h(r \<mapsto> d)) r kvs"
      using Inr kv by (simp only: apply_updates_in_place.simps sum.case)
    moreover have "apply_updates fl (h r) (kv # kvs) = apply_updates fl (Some d) kvs"
      using Inr kv by (simp only: apply_updates.simps sum.case)
    ultimately show ?thesis by (simp only:)
  qed
qed
text \<open>
  C9 (as stated, refuted). The claim has \<open>apply\<close> leave the input snapshot unmodified.
  The dict object at reference 0 holds \<open>hp = 10\<close> before the loop and \<open>hp = 8\<close> after it.
\<close>

theorem update_in_place_counterexample:
  "(Map.empty(0 \<mapsto> [(''hp'', PInt 10)])) (0::nat) = Some [(''hp'', PInt 10 :: unit pyval)]
   \<and> fst (apply_updates_in_place no_floats (Map.empty(0 \<mapsto> [(''hp'', PInt 10)])) 0
          [(''hp'', PInt (- 2))]) 0 = Some [(''hp'', PInt 8)]"
  by (simp add: update_one_def py_add_def dict_get_def)

text \<open>
  C9 (amended). For every store, every reference and every updates mapping, the update
  loop writes into the dict object the session refers to: after the loop that same
  object holds the updated state (also when an exception stopped the loop half-way),
  every other object is as before, and no new snapshot is made.
\<close>

theorem update_in_place:
  "apply_updates_in_place fl h r kvs =
     (h(r := fst (apply_updates fl (h r) kvs)), snd (apply_updates fl (h r) kvs))"
  by (rule apply_updates_in_place_eq)

section \<open>The current scene and the history\<close>

lemma begin_adventure_cases:
  assumes "begin_adventure fl call_llm st = (out, st')"
  shows "st' = st
       \<or> (\<exists>raw d. st' = st\<lparr>story_history := story_history st @ [history_entry d [] raw],
                            current_scene := Some (history_entry d [] raw)\<rparr>)"
  using assms
  by (auto simp: begin_adventure_def Let_def split: option.splits pyval.splits if_splits)

lemma create_character_result:
  "create_character fmt st name court archetype strength guile magic =
     (Rerun,
      \<lparr>pc = Some [(''name'', PStr name), (''court'', PStr court), (''archetype'', PStr archetype),
           (''strength'', PInt strength), (''guile'', PInt guile), (''magic'', PInt magic),
           (''hp'', PInt 10), (''relationship'', PDict []), (''inventory'', PList [])],
       story_history = [],
       current_scene = Some (prologue (fmt (PStr name)))\<rparr>)"
  by (simp add: create_character_def start_new_adventure_def Let_def)

lemma created_state_eq:
  "created_state =
     \<lparr>pc = Some [(''name'', PStr ''Aryn''), (''court'', PStr ''Night Court (mysterious)''),
           (''archetype'', PStr ''Wary Survivor''),
           (''strength'', PInt 5), (''guile'', PInt 6), (''magic'', PInt 3),
           (''hp'', PInt 10), (''relationship'', PDict []), (''inventory'', PList [])],
      story_history = [],
      current_scene = Some (prologue ''Aryn'')\<rparr>"
  by (simp add: created_state_def create_character_result fmt_str_def)

lemma created_reachable: "reachable no_floats fmt_str created_state"
proof -
  have "reachable no_floats fmt_str (init_session_state :: unit session_state)"
    by (rule reachable.page_load)
  moreover have "pc (init_session_state :: unit session_state) = None"
    by (simp add: init_session_state_def)
  moreover have "create_character fmt_str (init_session_state :: unit session_state)
      ''Aryn'' ''Night Court (mysterious)'' ''Wary Survivor'' 5 6 3 = (Rerun, created_state)"
    by (simp add: created_state_def create_character_result)
  ultimately show ?thesis by (rule reachable.form_submit)
qed

text \<open>
  C6 (as stated, refuted). The claim has the current scene equal the last entry of the
  ledger, or be null while the ledger is empty, in every reachable state. Submitting the
  creation form on a fresh page leads to a state whose history is empty and whose current
  scene is the prologue scene, which \<open>start_new_adventure\<close> builds and never appends.
\<close>

theorem prologue_outside_ledger:
  "reachable no_floats fmt_str created_state
   \<and> story_history created_state = []
   \<and> current_scene created_state = Some (prologue ''Aryn'')"
  using created_reachable by (simp add: created_state_eq)

text \<open>
  C6 (amended). In every reachable session state, either the history is empty and the
  current scene is null or a prologue scene set by \<open>start_new_adventure\<close>, or the
  history is not empty and the current scene is its last entry. Page load, the creation
  form, restart, the opening-scene request and \<open>take_choice\<close> all preserve this,
  whatever the backend answers and however a call ends.
\<close>

theorem current_scene_invariant:
  assumes "reachable fl fmt st"
  shows "(story_history st = []
          \<and> (current_scene st = None \<or> (\<exists>name. current_scene st = Some (prologue name))))
       \<or> (story_history st \<noteq> [] \<and> current_scene st = Some (last (story_history st)))"
  using assms
proof (induction rule: reachable.induct)
  case page_load
  show ?case by (simp add: init_session_state_def)
next
  case (form_submit st name court archetype strength guile magic out st')
  from form_submit(3) show ?case by (auto simp: create_character_result)
next
  case (restart_button st)
  show ?case by (simp add: restart_session_def)
next
  case (begin_button st call_llm out st')
  from begin_adventure_cases [OF begin_button(4)] begin_button.IH show ?case by auto
next
  case (choice_made st call_llm choice_text is_custom out st')
  from take_choice_cases [OF choice_made(4)] choice_made.IH show ?case by auto
qed

lemma played_state_eq:
  "played_state = created_state\<lparr>pc := Some [(''name'', PStr ''Aryn''), (''court'', PStr ''Night Court (mysterious)''),
           (''archetype'', PStr ''Wary Survivor''),
           (''strength'', PInt 5), (''guile'', PInt 6), (''magic'', PInt 3),
           (''hp'', PInt 8), (''relationship'', PDict []), (''inventory'', PList [])],
      story_history := [history_entry scenario_parsed ''Look around'' scenario_reply],
      current_scene := Some (history_entry scenario_parsed ''Look around'' scenario_reply)\<rparr>"
  by code_simp

lemma played_reachable: "reachable no_floats fmt_str played_state"
proof -
  have "pc created_state \<noteq> None" "current_scene created_state \<noteq> None"
    by (simp_all add: created_state_eq)
  moreover have "take_choice no_floats (\<lambda>m. Some scenario_reply) created_state ''Look around'' True
      = (fst (take_choice no_floats (\<lambda>m. Some scenario_reply) created_state ''Look around'' True), played_state)"
    by (simp add: played_state_def)
  ultimately show ?thesis using created_reachable by (metis reachable.choice_made)
qed

theorem current_scene_invariant_witness:
  "reachable no_floats fmt_str played_state
   \<and> story_history played_state = [history_entry scenario_parsed ''Look around'' scenario_reply]
   \<and> current_scene played_state = Some (last (story_history played_state))"
  using current_scene_invariant [OF played_reachable] played_reachable
  by (simp add: played_state_eq)

section \<open>Texts without an opening brace\<close>

lemma match_number_not_dict: "match_number fl s = Some (v, r) \<Longrightarrow> v \<noteq> PDict d"
  by (auto simp: match_number_def Let_def split: option.splits prod.splits if_splits)

lemma scan_atom_not_dict: "scan_atom fl s = Scanned v r \<Longrightarrow> v \<noteq> PDict d"
  by (auto simp: scan_atom_def dest: match_number_not_dict split: if_splits option.splits)

lemma array_values_list: "array_values fl n vals s = Scanned v r \<Longrightarrow> \<exists>xs. v = PList xs"
proof (induction n arbitrary: vals s)
  case 0
  then show ?case by simp
next
  case (Suc n)
  then show ?case
    by (auto split: scanned.splits separator.splits)
qed

lemma JSONArray_list: "JSONArray fl n s = Scanned v r \<Longrightarrow> \<exists>xs. v = PList xs"
  by (cases n) (auto split: opener.splits dest: array_values_list)

lemma scan_once_dict: "scan_once fl n s = Scanned (PDict d) r \<Longrightarrow> take 1 s = ''{''"
  by (cases n) (auto split: if_splits dest: JSONArray_list scan_atom_not_dict)

lemma json_loads_dict: "json_loads fl s = Some (PDict d) \<Longrightarrow> CHR ''{'' \<in> set s"
proof -
  assume "json_loads fl s = Some (PDict d)"
  then obtain r where "scan_once fl (3 * length s + 1) (skip_ws s) = Scanned (PDict d) r"
    by (auto simp: json_loads_def split: scanned.splits if_splits)
  then have "take 1 (skip_ws s) = ''{''" by (rule scan_once_dict)
  then have "CHR ''{'' \<in> set (skip_ws s)" by (cases "skip_ws s") auto
  then show ?thesis unfolding skip_ws_def by (rule set_dropWhileD)
qed

lemma set_lstrip: "set (lstrip s) \<subseteq> set s"
proof (induction s rule: lstrip.induct)
  case (1 s)
  show ?case
  proof (cases "space_prefix s = 0")
    case True
    then show ?thesis by (simp add: lstrip.simps)
  next
    case False
    with 1 have "set (lstrip (drop (space_prefix s) s)) \<subseteq> set (drop (space_prefix s) s)" by simp
    also have "\<dots> \<subseteq> set s" by (rule set_drop_subset)
    finally show ?thesis using False by (subst lstrip.simps) simp
  qed
qed

lemma set_rstrip: "set (rstrip s) \<subseteq> set s"
proof (induction s rule: rstrip.induct)
  case (1 s)
  show ?case
  proof (cases "space_suffix s = 0")
    case True
    then show ?thesis by (simp add: rstrip.simps)
  next
    case False
    with 1 have "set (rstrip (take (length s - space_suffix s) s))
        \<subseteq> set (take (length s - space_suffix s) s)" by simp
    also have "\<dots> \<subseteq> set s" by (rule set_take_subset)
    finally show ?thesis using False by (subst rstrip.simps) simp
  qed
qed

lemma set_strip: "set (strip s) \<subseteq> set s"
  unfolding strip_def using set_rstrip [of "lstrip s"] set_lstrip [of s] by blast

lemma set_strip_chars: "set (strip_chars cs s) \<subseteq> set s"
proof -
  have "set (dropWhile (\<lambda>c. c \<in> set cs) (rev (dropWhile (\<lambda>c. c \<in> set cs) s)))
      \<subseteq> set (rev (dropWhile (\<lambda>c. c \<in> set cs) s))"
    by (auto dest: set_dropWhileD)
  also have "\<dots> \<subseteq> set s" by (auto dest: set_dropWhileD)
  finally show ?thesis by (simp add: strip_chars_def)
qed

lemma set_cleaned: "set (cleaned text) \<subseteq> set text"
  unfolding cleaned_def
  using set_strip [of "strip_chars ''```'' (strip text)"] set_strip_chars [of "''```''" "strip text"]
    set_strip [where s = "text"]
  by blast

lemma strip_empty: "strip [] = []"
  by (simp add: strip_def lstrip.simps rstrip.simps space_prefix_def space_suffix_def)

lemma cleaned_empty: "cleaned [] = []"
  by (simp add: cleaned_def strip_empty strip_chars_def)

lemma json_loads_empty: "json_loads fl [] = None"
  by (simp add: json_loads_def skip_ws_def scan_atom_def match_number_def match_int_part_def)

lemma braceless_first_attempt: "CHR ''{'' \<notin> set text \<Longrightarrow> first_attempt fl text = None"
  by (simp add: first_attempt_def str_index_def)

text \<open>
  C5 (as stated, refuted). The claim has \<open>parse\<close> fail on every text without an opening
  brace. The text \<open>[1]\<close> has none, and \<open>parse_llm_json\<close> returns the list \<open>[1]\<close>: the
  ValueError of \<open>text.index\<close> is caught like a decoding error and the fallback decodes
  the text.
\<close>

theorem braceless_list_counterexample:
  "CHR ''{'' \<notin> set ''[1]'' \<and> parse_llm_json no_floats ''[1]'' = PList [PInt 1]"
  by code_simp

text \<open>
  C5 (amended). For every raw text without an opening brace, \<open>parse_llm_json\<close> returns
  what the fallback gives: the decoded value of the stripped text, or \<open>None\<close> when that
  does not decode. The result is never a mapping, so \<open>take_choice\<close> never applies such a
  reply: it returns early or raises AttributeError at \<open>parsed.get\<close>, with the session as it
  was. For the empty string the result is \<open>None\<close>.
\<close>

theorem braceless_text:
  assumes "CHR ''{'' \<notin> set text"
  shows "parse_llm_json fl text = (case json_loads fl (cleaned text) of None \<Rightarrow> PNone | Some v \<Rightarrow> v)
       \<and> (\<forall>d. parse_llm_json fl text \<noteq> PDict d)
       \<and> (call_llm (build_messages (pc st) (story_history st) c b) = Some text \<longrightarrow>
            take_choice fl call_llm st c b = (Returned, st)
            \<or> take_choice fl call_llm st c b = (Raised AttributeError, st))
       \<and> parse_llm_json fl [] = PNone"
proof -
  have eq: "parse_llm_json fl text = (case json_loads fl (cleaned text) of None \<Rightarrow> PNone | Some v \<Rightarrow> v)"
    using assms by (simp add: parse_llm_json_def braceless_first_attempt)
  have nd: "\<forall>d. parse_llm_json fl text \<noteq> PDict d"
  proof (intro allI notI)
    fix d assume "parse_llm_json fl text = PDict d"
    with eq have "json_loads fl (cleaned text) = Some (PDict d)"
      by (auto split: option.splits)
    then have "CHR ''{'' \<in> set (cleaned text)" by (rule json_loads_dict)
    with set_cleaned [of "text"] assms show False by blast
  qed
  have tc: "call_llm (build_messages (pc st) (story_history st) c b) = Some text \<longrightarrow>
            take_choice fl call_llm st c b = (Returned, st)
            \<or> take_choice fl call_llm st c b = (Raised AttributeError, st)"
    using nd take_choice_not_dict [of call_llm st c b "text" fl] by blast
  have em: "parse_llm_json fl [] = PNone"
    by (simp add: parse_llm_json_def first_attempt_def str_index_def cleaned_empty json_loads_empty)
  from eq nd tc em show ?thesis by blast
qed

lemma plain_text_parse: "parse_llm_json no_floats ''Sorry, I cannot continue.'' = PNone"
  by code_simp

theorem braceless_text_witness:
  "CHR ''{'' \<notin> set ''Sorry, I cannot continue.''
   \<and> parse_llm_json no_floats ''Sorry, I cannot continue.'' = PNone
   \<and> take_choice no_floats (\<lambda>m. Some ''Sorry, I cannot continue.'') named_state ''x'' False
        = (Returned, named_state)"
proof -
  have nb: "CHR ''{'' \<notin> set ''Sorry, I cannot continue.''" by simp
  from braceless_text [OF nb, of no_floats "\<lambda>m. Some ''Sorry, I cannot continue.''" named_state "''x''" False]
    plain_text_parse nb
  show ?thesis by (simp add: take_choice_def)
qed

section \<open>The step budget of the scanner\<close>

text \<open>
  Every successful scan consumes at least one character, so a budget of three steps per
  character and one more is never used up, and a larger budget gives the same result:
  the budget in \<open>json_loads\<close> is no restriction on the texts it decodes.
\<close>

lemma prepend_Some: "prepend pre x = Some (str, r) \<Longrightarrow> \<exists>str'. x = Some (str', r)"
  by (auto simp: prepend_def)

lemma scanstring_shorter: "scanstring s = Some (str, r) \<Longrightarrow> length r < length s"
proof (induction s arbitrary: str rule: scanstring.induct)
  case 1
  then show ?case by simp
next
  case (2 c cs)
  show ?case
  proof (cases "c = CHR 0x22")
    case True
    with 2 show ?thesis by simp
  next
    case quote: False
    show ?thesis
    proof (cases "c = CHR 0x5C")
      case False
      with quote "2.prems" have ctl: "\<not> (of_char c :: nat) < 0x20"
        and "\<exists>str'. scanstring cs = Some (str', r)"
        by (auto split: if_splits dest: prepend_Some)
      then obtain str' where "scanstring cs = Some (str', r)" by blast
      with "2.IH"(5) [OF quote False ctl] have "length r < length cs" by blast
      then show ?thesis by simp
    next
      case True
      with quote "2.prems" obtain e es where cs: "cs = e # es" by (cases cs) auto
      show ?thesis
      proof (cases "e = CHR ''u''")
        case False
        with quote True cs "2.prems" obtain ch str' where
          ch: "backslash e = Some ch" and rec: "scanstring es = Some (str', r)"
          by (auto split: option.splits dest: prepend_Some)
        from "2.IH"(4) [OF quote True cs False ch rec] have "length r < length es" .
        with cs show ?thesis by simp
      next
        case u: True
        with quote True cs "2.prems" obtain uni where uni: "decode_uXXXX es = Some uni"
          by (auto split: option.splits)
        let ?pair = "0xD800 \<le> uni \<and> uni \<le> 0xDBFF \<and> take 2 (drop 4 es) = [CHR 0x5C, CHR ''u'']"
        show ?thesis
        proof (cases ?pair)
          case False
          with quote True cs u uni "2.prems" obtain str' where
            rec: "scanstring (drop 4 es) = Some (str', r)"
            by (auto dest: prepend_Some)
          from "2.IH"(3) [OF quote True cs u uni False rec] have "length r < length (drop 4 es)" .
          with cs show ?thesis by simp
        next
          case pair: True
          with quote True cs u uni "2.prems" obtain uni2 where uni2: "decode_uXXXX (drop 6 es) = Some uni2"
            by (auto split: option.splits)
          show ?thesis
          proof (cases "0xDC00 \<le> uni2 \<and> uni2 \<le> 0xDFFF")
            case low: True
            with quote True cs u uni pair uni2 "2.prems" obtain str' where
              rec: "scanstring (drop 10 es) = Some (str', r)"
              by (auto dest: prepend_Some)
            from "2.IH"(1) [OF quote True cs u uni pair uni2 low rec]
            have "length r < length (drop 10 es)" .
            with cs show ?thesis by simp
          next
            case nolow: False
            with quote True cs u uni pair uni2 "2.prems" obtain str' where
              rec: "scanstring (drop 4 es) = Some (str', r)"
              by (auto dest: prepend_Some)
            from "2.IH"(2) [OF quote True cs u uni pair uni2 nolow rec]
            have "length r < length (drop 4 es)" .
            with cs show ?thesis by simp
          qed
        qed
      qed
    qed
  qed
qed

lemma skip_ws_length: "length (skip_ws s) \<le> length s"
  by (simp add: skip_ws_def length_dropWhile_le)

lemma match_int_part_shorter: "match_int_part s = Some (i, r) \<Longrightarrow> length r < length s"
proof -
  assume m: "match_int_part s = Some (i, r)"
  let ?sgn = "takeWhile (\<lambda>c. c = CHR ''-'') (take 1 s)"
  from m obtain d ds where r: "drop (length ?sgn) s = d # ds" and le: "length r \<le> length ds"
    by (auto simp: match_int_part_def Let_def length_dropWhile_le split: list.splits if_splits)
  have "length (drop (length ?sgn) s) \<le> length s" by simp
  with r le show ?thesis by simp
qed

lemma match_frac_length: "match_frac s = (f, r) \<Longrightarrow> length r \<le> length s"
  by (auto simp: match_frac_def split: list.splits if_splits
      intro: le_trans [OF length_dropWhile_le])

lemma match_exp_length: "match_exp s = (e, r) \<Longrightarrow> length r \<le> length s"
proof (cases s)
  case Nil
  assume "match_exp s = (e, r)"
  with Nil show ?thesis by (simp add: match_exp_def)
next
  case (Cons c cs)
  assume m: "match_exp s = (e, r)"
  let ?sgn = "takeWhile (\<lambda>x. x = CHR ''-'' \<or> x = CHR ''+'') (take 1 cs)"
  have "length (dropWhile is_digit (drop (length ?sgn) cs)) \<le> length (drop (length ?sgn) cs)"
    by (rule length_dropWhile_le)
  also have "\<dots> \<le> length cs" by simp
  finally have "length (dropWhile is_digit (drop (length ?sgn) cs)) \<le> length cs" .
  with m Cons show ?thesis
    by (auto simp: match_exp_def Let_def split: if_splits)
qed

lemma match_number_shorter: "match_number fl s = Some (v, r) \<Longrightarrow> length r < length s"
proof -
  assume m: "match_number fl s = Some (v, r)"
  then obtain i r1 where i: "match_int_part s = Some (i, r1)"
    by (auto simp: match_number_def split: option.splits)
  obtain f r2 where f: "match_frac r1 = (f, r2)" by (cases "match_frac r1")
  obtain e r3 where e: "match_exp r2 = (e, r3)" by (cases "match_exp r2")
  from m i f e have "r = r3" by (auto simp: match_number_def split: if_splits)
  with match_int_part_shorter [OF i] match_frac_length [OF f] match_exp_length [OF e]
  show ?thesis by simp
qed

lemma take_eq_length: "take n s = t \<Longrightarrow> length t = n \<Longrightarrow> n \<le> length s"
  by (metis length_take min.cobounded1 min.commute)

lemma scan_atom_shorter: "scan_atom fl s = Scanned v r \<Longrightarrow> length r < length s"
proof -
  assume a: "scan_atom fl s = Scanned v r"
  show ?thesis
  proof (cases "take 1 s = [CHR 0x22]")
    case True
    with a obtain str where "scanstring (drop 1 s) = Some (str, r)"
      by (auto simp: scan_atom_def split: option.splits)
    from scanstring_shorter [OF this] show ?thesis by simp
  next
    case False
    have lit: "\<And>n t. take n s = t \<Longrightarrow> length t = n \<Longrightarrow> 0 < n \<Longrightarrow> length (drop n s) < length s"
      using take_eq_length by fastforce
    from a False show ?thesis
      by (auto simp: scan_atom_def split: if_splits option.splits
          dest: match_number_shorter lit)
  qed
qed

lemma object_start_shorter:
  "object_start s = Closes r \<Longrightarrow> length r < length s"
  "object_start s = Opens r \<Longrightarrow> length r < length s"
  using skip_ws_length [of s]
  by (auto simp: object_start_def split: list.splits if_splits)

lemma array_start_shorter:
  "array_start s = Closes r \<Longrightarrow> length r < length s"
  "array_start s = Opens r \<Longrightarrow> length r \<le> length s"
proof -
  show "array_start s = Closes r \<Longrightarrow> length r < length s"
    using skip_ws_length [of s]
    by (auto simp: array_start_def split: list.splits if_splits)
  assume "array_start s = Opens r"
  then have "r = skip_ws s"
    by (auto simp: array_start_def split: list.splits if_splits)
  then show "length r \<le> length s" by (simp add: skip_ws_length)
qed

lemma object_key_shorter: "object_key s = Some (key, r) \<Longrightarrow> length r < length s"
proof -
  assume k: "object_key s = Some (key, r)"
  then obtain r0 c r1 where s0: "scanstring s = Some (key, r0)" and w: "skip_ws r0 = c # r1"
    and r: "r = skip_ws r1"
    by (auto simp: object_key_def split: option.splits list.splits if_splits)
  from scanstring_shorter [OF s0] skip_ws_length [of r0] skip_ws_length [of r1] w r
  show ?thesis by simp
qed

lemma object_next_shorter:
  "object_next s = Last r \<Longrightarrow> length r < length s"
  "object_next s = Next r \<Longrightarrow> length r < length s"
proof -
  show "object_next s = Last r \<Longrightarrow> length r < length s"
    using skip_ws_length [of s]
    by (auto simp: object_next_def split: list.splits if_splits)
  assume n: "object_next s = Next r"
  then obtain d r0 q where a: "skip_ws s = d # r0" and b: "skip_ws r0 = q # r"
    by (auto simp: object_next_def split: list.splits if_splits)
  with skip_ws_length [of s] skip_ws_length [of r0] show "length r < length s" by simp
qed

lemma array_next_shorter:
  "array_next s = Last r \<Longrightarrow> length r < length s"
  "array_next s = Next r \<Longrightarrow> length r < length s"
proof -
  show "array_next s = Last r \<Longrightarrow> length r < length s"
    using skip_ws_length [of s]
    by (auto simp: array_next_def split: list.splits if_splits)
  assume n: "array_next s = Next r"
  then obtain d r0 where a: "skip_ws s = d # r0" and b: "r = skip_ws r0"
    by (auto simp: array_next_def split: list.splits if_splits)
  with skip_ws_length [of s] skip_ws_length [of r0] show "length r < length s" by simp
qed

lemma scan_shorter:
  "(\<forall>s v r. scan_once fl n s = Scanned v r \<longrightarrow> length r < length s)
   \<and> (\<forall>s v r. JSONObject fl n s = Scanned v r \<longrightarrow> length r < length s)
   \<and> (\<forall>ps s v r. object_pairs fl n ps s = Scanned v r \<longrightarrow> length r < length s)
   \<and> (\<forall>s v r. JSONArray fl n s = Scanned v r \<longrightarrow> length r < length s)
   \<and> (\<forall>vs s v r. array_values fl n vs s = Scanned v r \<longrightarrow> length r < length s)"
proof (induction n)
  case 0
  show ?case by simp
next
  case (Suc n)
  then have once: "\<And>s v r. scan_once fl n s = Scanned v r \<Longrightarrow> length r < length s"
    and obj: "\<And>s v r. JSONObject fl n s = Scanned v r \<Longrightarrow> length r < length s"
    and pairs: "\<And>ps s v r. object_pairs fl n ps s = Scanned v r \<Longrightarrow> length r < length s"
    and arr: "\<And>s v r. JSONArray fl n s = Scanned v r \<Longrightarrow> length r < length s"
    and vals: "\<And>vs s v r. array_values fl n vs s = Scanned v r \<Longrightarrow> length r < length s"
    by blast+
  have 1: "length r < length s" if "scan_once fl (Suc n) s = Scanned v r" for s v r
  proof -
    consider (o) "take 1 s = ''{''" | (a) "take 1 s \<noteq> ''{''" "take 1 s = ''[''"
      | (m) "take 1 s \<noteq> ''{''" "take 1 s \<noteq> ''[''" by blast
    then show ?thesis
    proof cases
      case o
      with that have "JSONObject fl n (drop 1 s) = Scanned v r" by simp
      from obj [OF this] show ?thesis by simp
    next
      case a
      with that have "JSONArray fl n (drop 1 s) = Scanned v r" by simp
      from arr [OF this] show ?thesis by simp
    next
      case m
      with that have "scan_atom fl s = Scanned v r" by simp
      then show ?thesis by (rule scan_atom_shorter)
    qed
  qed
  have 2: "length r < length s" if "JSONObject fl (Suc n) s = Scanned v r" for s v r
  proof (cases "object_start s")
    case (Closes r0)
    with that object_start_shorter(1) [OF Closes] show ?thesis by simp
  next
    case (Opens r0)
    with that have "object_pairs fl n [] r0 = Scanned v r" by simp
    from pairs [OF this] object_start_shorter(2) [OF Opens] show ?thesis by simp
  next
    case Bad_Opening
    with that show ?thesis by simp
  qed
  have 3: "length r < length s" if "object_pairs fl (Suc n) ps s = Scanned v r" for ps s v r
  proof -
    from that obtain key r0 where k: "object_key s = Some (key, r0)"
      by (auto split: option.splits)
    from that k obtain w r1 where o: "scan_once fl n r0 = Scanned w r1"
      by (auto split: scanned.splits)
    note l0 = object_key_shorter [OF k] and l1 = once [OF o]
    show ?thesis
    proof (cases "object_next r1")
      case (Last r2)
      with that k o have "r = r2" by simp
      with object_next_shorter(1) [OF Last] l0 l1 show ?thesis by simp
    next
      case (Next r2)
      with that k o have "object_pairs fl n (ps @ [(key, w)]) r2 = Scanned v r" by simp
      from pairs [OF this] object_next_shorter(2) [OF Next] l0 l1 show ?thesis by simp
    next
      case Bad_Separator
      with that k o show ?thesis by simp
    qed
  qed
  have 4: "length r < length s" if "JSONArray fl (Suc n) s = Scanned v r" for s v r
  proof (cases "array_start s")
    case (Closes r0)
    with that array_start_shorter(1) [OF Closes] show ?thesis by simp
  next
    case (Opens r0)
    with that have "array_values fl n [] r0 = Scanned v r" by simp
    from vals [OF this] array_start_shorter(2) [OF Opens] show ?thesis by simp
  next
    case Bad_Opening
    with that show ?thesis by simp
  qed
  have 5: "length r < length s" if "array_values fl (Suc n) vs s = Scanned v r" for vs s v r
  proof -
    from that obtain w r1 where o: "scan_once fl n s = Scanned w r1"
      by (auto split: scanned.splits)
    note l1 = once [OF o]
    show ?thesis
    proof (cases "array_next r1")
      case (Last r2)
      with that o have "r = r2" by simp
      with array_next_shorter(1) [OF Last] l1 show ?thesis by simp
    next
      case (Next r2)
      with that o have "array_values fl n (vs @ [w]) r2 = Scanned v r" by simp
      from vals [OF this] array_next_shorter(2) [OF Next] l1 show ?thesis by simp
    next
      case Bad_Separator
      with that o show ?thesis by simp
    qed
  qed
  from 1 2 3 4 5 show ?case by blast
qed

lemma scan_atom_in_budget: "scan_atom fl s \<noteq> Out_Of_Budget"
  by (simp add: scan_atom_def split: option.splits)

lemma scan_in_budget:
  "(\<forall>s. 3 * length s + 1 \<le> n \<longrightarrow> scan_once fl n s \<noteq> Out_Of_Budget)
   \<and> (\<forall>s. 3 * length s + 3 \<le> n \<longrightarrow> JSONObject fl n s \<noteq> Out_Of_Budget)
   \<and> (\<forall>ps s. 3 * length s + 2 \<le> n \<longrightarrow> object_pairs fl n ps s \<noteq> Out_Of_Budget)
   \<and> (\<forall>s. 3 * length s + 3 \<le> n \<longrightarrow> JSONArray fl n s \<noteq> Out_Of_Budget)
   \<and> (\<forall>vs s. 3 * length s + 2 \<le> n \<longrightarrow> array_values fl n vs s \<noteq> Out_Of_Budget)"
proof (induction n)
  case 0
  show ?case by simp
next
  case (Suc n)
  then have once: "\<And>s. 3 * length s + 1 \<le> n \<Longrightarrow> scan_once fl n s \<noteq> Out_Of_Budget"
    and obj: "\<And>s. 3 * length s + 3 \<le> n \<Longrightarrow> JSONObject fl n s \<noteq> Out_Of_Budget"
    and pairs: "\<And>ps s. 3 * length s + 2 \<le> n \<Longrightarrow> object_pairs fl n ps s \<noteq> Out_Of_Budget"
    and arr: "\<And>s. 3 * length s + 3 \<le> n \<Longrightarrow> JSONArray fl n s \<noteq> Out_Of_Budget"
    and vals: "\<And>vs s. 3 * length s + 2 \<le> n \<Longrightarrow> array_values fl n vs s \<noteq> Out_Of_Budget"
    by blast+
  note shorter = scan_shorter [of fl n]
  have 1: "scan_once fl (Suc n) s \<noteq> Out_Of_Budget" if b: "3 * length s + 1 \<le> Suc n" for s
  proof (cases "take 1 s = ''{'' \<or> take 1 s = ''[''")
    case True
    then have "s \<noteq> []" by auto
    with b have "3 * length (drop 1 s) + 3 \<le> n" by (cases s) simp_all
    with obj arr True show ?thesis by auto
  next
    case False
    then show ?thesis by (simp add: scan_atom_in_budget)
  qed
  have 2: "JSONObject fl (Suc n) s \<noteq> Out_Of_Budget" if b: "3 * length s + 3 \<le> Suc n" for s
  proof (cases "object_start s")
    case (Opens r0)
    with object_start_shorter(2) [OF Opens] b pairs [of r0 "[]"] show ?thesis by simp
  qed simp_all
  have 3: "object_pairs fl (Suc n) ps s \<noteq> Out_Of_Budget" if b: "3 * length s + 2 \<le> Suc n" for ps s
  proof (cases "object_key s")
    case None
    then show ?thesis by simp
  next
    case (Some kr)
    obtain key r0 where kr: "kr = (key, r0)" by (cases kr)
    with Some have k: "object_key s = Some (key, r0)" by simp
    note l0 = object_key_shorter [OF k]
    with b have "3 * length r0 + 1 \<le> n" by simp
    from once [OF this] have no: "scan_once fl n r0 \<noteq> Out_Of_Budget" .
    show ?thesis
    proof (cases "scan_once fl n r0")
      case (Scanned w r1)
      with shorter have l1: "length r1 < length r0" by blast
      show ?thesis
      proof (cases "object_next r1")
        case (Next r2)
        with object_next_shorter(2) [OF Next] l0 l1 b have "3 * length r2 + 2 \<le> n" by simp
        from pairs [OF this] k Scanned Next show ?thesis by simp
      qed (use k Scanned in simp_all)
    qed (use k no in simp_all)
  qed
  have 4: "JSONArray fl (Suc n) s \<noteq> Out_Of_Budget" if b: "3 * length s + 3 \<le> Suc n" for s
  proof (cases "array_start s")
    case (Opens r0)
    with array_start_shorter(2) [OF Opens] b vals [of r0 "[]"] show ?thesis by simp
  qed simp_all
  have 5: "array_values fl (Suc n) vs s \<noteq> Out_Of_Budget" if b: "3 * length s + 2 \<le> Suc n" for vs s
  proof -
    from b have "3 * length s + 1 \<le> n" by simp
    from once [OF this] have no: "scan_once fl n s \<noteq> Out_Of_Budget" .
    show ?thesis
    proof (cases "scan_once fl n s")
      case (Scanned w r1)
      with shorter have l1: "length r1 < length s" by blast
      show ?thesis
      proof (cases "array_next r1")
        case (Next r2)
        with array_next_shorter(2) [OF Next] l1 b have "3 * length r2 + 2 \<le> n" by simp
        from vals [OF this] Scanned Next show ?thesis by simp
      qed (use Scanned in simp_all)
    qed (use no in simp_all)
  qed
  from 1 2 3 4 5 show ?case by blast
qed

lemma scan_more_budget:
  "(\<forall>s. scan_once fl n s \<noteq> Out_Of_Budget \<longrightarrow> scan_once fl (n + k) s = scan_once fl n s)
   \<and> (\<forall>s. JSONObject fl n s \<noteq> Out_Of_Budget \<longrightarrow> JSONObject fl (n + k) s = JSONObject fl n s)
   \<and> (\<forall>ps s. object_pairs fl n ps s \<noteq> Out_Of_Budget \<longrightarrow>
         object_pairs fl (n + k) ps s = object_pairs fl n ps s)
   \<and> (\<forall>s. JSONArray fl n s \<noteq> Out_Of_Budget \<longrightarrow> JSONArray fl (n + k) s = JSONArray fl n s)
   \<and> (\<forall>vs s. array_values fl n vs s \<noteq> Out_Of_Budget \<longrightarrow>
         array_values fl (n + k) vs s = array_values fl n vs s)"
proof (induction n)
  case 0
  show ?case by simp
next
  case (Suc n)
  then have once: "\<And>s. scan_once fl n s \<noteq> Out_Of_Budget \<Longrightarrow> scan_once fl (n + k) s = scan_once fl n s"
    and obj: "\<And>s. JSONObject fl n s \<noteq> Out_Of_Budget \<Longrightarrow> JSONObject fl (n + k) s = JSONObject fl n s"
    and pairs: "\<And>ps s. object_pairs fl n ps s \<noteq> Out_Of_Budget \<Longrightarrow>
         object_pairs fl (n + k) ps s = object_pairs fl n ps s"
    and arr: "\<And>s. JSONArray fl n s \<noteq> Out_Of_Budget \<Longrightarrow> JSONArray fl (n + k) s = JSONArray fl n s"
    and vals: "\<And>vs s. array_values fl n vs s \<noteq> Out_Of_Budget \<Longrightarrow>
         array_values fl (n + k) vs s = array_values fl n vs s"
    by blast+
  have 1: "scan_once fl (Suc n + k) s = scan_once fl (Suc n) s"
    if "scan_once fl (Suc n) s \<noteq> Out_Of_Budget" for s
    using that obj arr by (auto split: if_splits)
  have 2: "JSONObject fl (Suc n + k) s = JSONObject fl (Suc n) s"
    if "JSONObject fl (Suc n) s \<noteq> Out_Of_Budget" for s
    using that pairs by (cases "object_start s") auto
  have 3: "object_pairs fl (Suc n + k) ps s = object_pairs fl (Suc n) ps s"
    if ok: "object_pairs fl (Suc n) ps s \<noteq> Out_Of_Budget" for ps s
  proof (cases "object_key s")
    case None
    then show ?thesis by simp
  next
    case (Some kr)
    obtain key r0 where kr: "kr = (key, r0)" by (cases kr)
    with Some have k: "object_key s = Some (key, r0)" by simp
    with ok have no: "scan_once fl n r0 \<noteq> Out_Of_Budget" by (auto split: scanned.splits)
    note e = once [OF no]
    show ?thesis
    proof (cases "scan_once fl n r0")
      case (Scanned w r1)
      show ?thesis
      proof (cases "object_next r1")
        case (Next r2)
        with ok k Scanned have "object_pairs fl n (ps @ [(key, w)]) r2 \<noteq> Out_Of_Budget" by simp
        from pairs [OF this] k e Scanned Next show ?thesis by simp
      qed (use k e Scanned in simp_all)
    qed (use k e no in simp_all)
  qed
  have 4: "JSONArray fl (Suc n + k) s = JSONArray fl (Suc n) s"
    if "JSONArray fl (Suc n) s \<noteq> Out_Of_Budget" for s
    using that vals by (cases "array_start s") auto
  have 5: "array_values fl (Suc n + k) vs s = array_values fl (Suc n) vs s"
    if ok: "array_values fl (Suc n) vs s \<noteq> Out_Of_Budget" for vs s
  proof -
    from ok have no: "scan_once fl n s \<noteq> Out_Of_Budget" by (auto split: scanned.splits)
    note e = once [OF no]
    show ?thesis
    proof (cases "scan_once fl n s")
      case (Scanned w r1)
      show ?thesis
      proof (cases "array_next r1")
        case (Next r2)
        with ok Scanned have "array_values fl n (vs @ [w]) r2 \<noteq> Out_Of_Budget" by simp
        from vals [OF this] e Scanned Next show ?thesis by simp
      qed (use e Scanned in simp_all)
    qed (use e no in simp_all)
  qed
  from 1 2 3 4 5 show ?case by blast
qed

lemma scan_once_budget:
  assumes "3 * length s + 1 \<le> n"
  shows "scan_once fl n s \<noteq> Out_Of_Budget"
    and "scan_once fl n s = scan_once fl (3 * length s + 1) s"
proof -
  from assms scan_in_budget [of n fl] show "scan_once fl n s \<noteq> Out_Of_Budget" by blast
  have "scan_once fl (3 * length s + 1) s \<noteq> Out_Of_Budget"
    using scan_in_budget [of "3 * length s + 1" fl] by blast
  with scan_more_budget [of fl "3 * length s + 1" "n - (3 * length s + 1)"] assms
  show "scan_once fl n s = scan_once fl (3 * length s + 1) s" by auto
qed

lemma json_loads_in_budget:
  "scan_once fl (3 * length s + 1) (skip_ws s) \<noteq> Out_Of_Budget"
proof -
  have "3 * length (skip_ws s) + 1 \<le> 3 * length s + 1"
    using skip_ws_length [of s] by simp
  then show ?thesis by (rule scan_once_budget(1))
qed


end
